theory Spec2Isabelle
  imports Main "HOL-Library.Sublist" "HOL-Library.AList"
begin

section \<open>JavaScript strings\<close>

text \<open>
  A JavaScript string is modelled as a HOL \<open>string\<close>, one \<open>char\<close> per code unit; the
  model covers the strings whose code units are below 256.
\<close>

definition startsWith :: "string \<Rightarrow> string \<Rightarrow> bool" where
  "startsWith s p = (take (length p) s = p)"

definition endsWith :: "string \<Rightarrow> string \<Rightarrow> bool" where
  "endsWith s p = (length p \<le> length s \<and> drop (length s - length p) s = p)"

section \<open>Actor filter (src/github/utils/actor-filter.ts)\<close>

definition actorMatchesPattern :: "string \<Rightarrow> string \<Rightarrow> bool" where
  "actorMatchesPattern actor pattern =
     (if actor = pattern then True
      else if pattern = ''*[bot]'' \<and> endsWith actor ''[bot]'' then True
      else False)"

text \<open>The two \<open>for\<close> loops of \<open>shouldIncludeCommentByActor\<close>: each returns at the first
  pattern that matches.\<close>

fun excludeLoop :: "string \<Rightarrow> string list \<Rightarrow> bool" where
  "excludeLoop actor [] = False"
| "excludeLoop actor (pattern # rest) =
     (if actorMatchesPattern actor pattern then True else excludeLoop actor rest)"

fun includeLoop :: "string \<Rightarrow> string list \<Rightarrow> bool" where
  "includeLoop actor [] = False"
| "includeLoop actor (pattern # rest) =
     (if actorMatchesPattern actor pattern then True else includeLoop actor rest)"

definition shouldIncludeCommentByActor :: "string \<Rightarrow> string list \<Rightarrow> string list \<Rightarrow> bool" where
  "shouldIncludeCommentByActor actor includeActors excludeActors =
     (if length excludeActors > 0 \<and> excludeLoop actor excludeActors then False
      else if length includeActors > 0 then
        (if includeLoop actor includeActors then True else False)
      else True)"

text \<open>
  \<open>String.prototype.trim\<close> removes ECMAScript white space and line terminators from both
  ends; below 256 these are the code units 09, 0A, 0B, 0C, 0D, 20 and A0.
\<close>

definition isWhitespace :: "char \<Rightarrow> bool" where
  "isWhitespace c = (c \<in> set [CHR 0x09, CHR 0x0A, CHR 0x0B, CHR 0x0C, CHR 0x0D, CHR 0x20, CHR 0xA0])"

definition trim :: "string \<Rightarrow> string" where
  "trim s = rev (dropWhile isWhitespace (rev (dropWhile isWhitespace s)))"

text \<open>\<open>s.split(c)\<close> for a one-character separator: never empty, \<open>"".split(c)\<close> is \<open>[""]\<close>.\<close>

fun splitOn :: "char \<Rightarrow> string \<Rightarrow> string list" where
  "splitOn c [] = [[]]"
| "splitOn c (x # xs) =
     (if x = c then [] # splitOn c xs
      else (let r = splitOn c xs in (x # hd r) # tl r))"

text \<open>\<open>s.indexOf(c)\<close> for a one-character needle; \<open>None\<close> stands for \<open>-1\<close>.\<close>

definition indexOf :: "string \<Rightarrow> char \<Rightarrow> nat option" where
  "indexOf s c = (if c \<in> set s then Some (length (takeWhile (\<lambda>x. x \<noteq> c) s)) else None)"

text \<open>\<open>s.includes(t)\<close>: \<open>t\<close> occurs in \<open>s\<close> as a contiguous substring.\<close>

definition includes_str :: "string \<Rightarrow> string \<Rightarrow> bool" where
  "includes_str s t = list_ex (prefix t) (suffixes s)"

section \<open>Permission overlay (parseAdditionalPermissions of github/token.ts)\<close>

text \<open>
  A \<open>Record<string, string>\<close> is an association list in insertion order: assigning to a key
  that is present replaces its value in place, assigning to a new key appends it.
\<close>

type_synonym permissions = "(string \<times> string) list"

definition DEFAULT_PERMISSIONS :: permissions where
  "DEFAULT_PERMISSIONS =
     [(''contents'', ''write''), (''pull_requests'', ''write''), (''issues'', ''write'')]"

text \<open>
  \<open>additional[key] = value\<close> on an object literal. The key \<open>__proto__\<close> is the accessor
  inherited from \<open>Object.prototype\<close>, whose setter ignores a string: no own property is made.
\<close>

definition assignProp :: "permissions \<Rightarrow> string \<Rightarrow> string \<Rightarrow> permissions" where
  "assignProp obj key v = (if key = ''__proto__'' then obj else AList.update key v obj)"

text \<open>One iteration of the loop over the lines.\<close>

definition parseLine :: "string \<Rightarrow> permissions \<Rightarrow> permissions" where
  "parseLine line additional =
     (let trimmed = trim line in
      if trimmed = [] then additional
      else (case indexOf trimmed CHR '':'' of
              None \<Rightarrow> additional
            | Some colonIndex \<Rightarrow>
                (let key = trim (take colonIndex trimmed);
                     v = trim (drop (colonIndex + 1) trimmed)
                 in if key \<noteq> [] \<and> v \<noteq> [] then assignProp additional key v
                    else additional)))"

definition parseLines :: "string list \<Rightarrow> permissions" where
  "parseLines ls = fold parseLine ls []"

text \<open>
  \<open>{ ...base, ...extra }\<close>: the properties of \<open>extra\<close> are written over those of \<open>base\<close>.
  The list keeps the order in which string keys were inserted; JavaScript enumerates keys
  that are array indices first, which the list does not reproduce, so the properties below
  are about the value found under a key.
\<close>

definition spread :: "permissions \<Rightarrow> permissions \<Rightarrow> permissions" where
  "spread base extra = fold (\<lambda>(k, v). AList.update k v) extra base"

text \<open>The argument is \<open>process.env.ADDITIONAL_PERMISSIONS\<close>; \<open>None\<close> is the unset variable and
  the result \<open>None\<close> is \<open>undefined\<close>.\<close>

definition parseAdditionalPermissions :: "string option \<Rightarrow> permissions option" where
  "parseAdditionalPermissions env =
     (case env of
        None \<Rightarrow> None
      | Some raw \<Rightarrow>
          if raw = [] \<or> trim raw = [] then None
          else (let additional = parseLines (splitOn CHR 0x0A raw) in
                if length additional = 0 then None
                else Some (spread DEFAULT_PERMISSIONS additional)))"

text \<open>
  Lines of the form \<open>key: value\<close> as the workflow author writes them: the key and the
  value are non-empty, have no white space at their ends and no line break, and the key
  has no colon and is not \<open>__proto__\<close>. \<open>permissionLine\<close> is such a line.
\<close>

definition wellFormedKey :: "string \<Rightarrow> bool" where
  "wellFormedKey k =
     (k \<noteq> [] \<and> \<not> isWhitespace (hd k) \<and> \<not> isWhitespace (last k)
      \<and> CHR '':'' \<notin> set k \<and> CHR 0x0A \<notin> set k \<and> k \<noteq> ''__proto__'')"

definition wellFormedValue :: "string \<Rightarrow> bool" where
  "wellFormedValue v =
     (v \<noteq> [] \<and> \<not> isWhitespace (hd v) \<and> \<not> isWhitespace (last v) \<and> CHR 0x0A \<notin> set v)"

definition permissionLine :: "string \<times> string \<Rightarrow> string" where
  "permissionLine kv = fst kv @ '': '' @ snd kv"

section \<open>Errors\<close>

text \<open>
  Every thrown value of the modelled code is an \<open>Error\<close> carrying its message, or the
  subclass \<open>WorkflowValidationSkipError\<close> of github/token.ts. A computation that can throw
  returns \<open>exn + 'a\<close>, with \<open>Inl\<close> for the thrown error.
\<close>

datatype exn = Error string | WorkflowValidationSkipError string

fun message :: "exn \<Rightarrow> string" where
  "message (Error m) = m"
| "message (WorkflowValidationSkipError m) = m"

section \<open>Path validation (src/mcp/path-validation.ts)\<close>

text \<open>
  \<open>path.resolve\<close> of Node's POSIX \<open>path\<close> module: the arguments are taken from the right
  until one is absolute (empty ones are skipped, the working directory, an absolute path,
  comes last), then \<open>.\<close>, \<open>..\<close> and empty segments are removed lexically.
\<close>

definition sep :: string where
  "sep = ''/''"

fun collectAbsolute :: "string \<Rightarrow> string list \<Rightarrow> string \<Rightarrow> string" where
  "collectAbsolute cwd [] acc = cwd @ ''/'' @ acc"
| "collectAbsolute cwd (p # ps) acc =
     (if p = [] then collectAbsolute cwd ps acc
      else if hd p = CHR ''/'' then p @ ''/'' @ acc
      else collectAbsolute cwd ps (p @ ''/'' @ acc))"

definition normalizeStep :: "string \<Rightarrow> string list \<Rightarrow> string list" where
  "normalizeStep seg res =
     (if seg = [] \<or> seg = ''.'' then res
      else if seg = ''..'' then butlast res
      else res @ [seg])"

fun joinWith :: "string \<Rightarrow> string list \<Rightarrow> string" where
  "joinWith s [] = []"
| "joinWith s [x] = x"
| "joinWith s (x # y # ys) = x @ s @ joinWith s (y # ys)"

text \<open>\<open>resolve cwd args\<close> is \<open>path.resolve(...args)\<close> in working directory \<open>cwd\<close>.\<close>

definition resolve :: "string \<Rightarrow> string list \<Rightarrow> string" where
  "resolve cwd args =
     ''/'' @ joinWith ''/'' (fold normalizeStep (splitOn CHR ''/'' (collectAbsolute cwd (rev args) [])) [])"

definition rootNotFound :: "string \<Rightarrow> exn" where
  "rootNotFound repoRoot =
     Error (''Repository root '' @ [CHR 0x27] @ repoRoot @ [CHR 0x27] @ '' does not exist'')"

definition pathEscapesRoot :: "string \<Rightarrow> exn" where
  "pathEscapesRoot filePath =
     Error (''Path '' @ [CHR 0x27] @ filePath @ [CHR 0x27] @ '' resolves outside the repository root'')"

text \<open>
  The file system is the function \<open>realpath\<close>: \<open>realpath p = Some q\<close> when \<open>fs.realpath(p)\<close>
  resolves to \<open>q\<close>, and \<open>None\<close> when it rejects (the path does not exist). The error thrown
  inside the inner \<open>try\<close> is caught by the inner \<open>catch\<close>, which throws the same message.
\<close>

definition validatePathWithinRepo ::
  "(string \<Rightarrow> string option) \<Rightarrow> string \<Rightarrow> string \<Rightarrow> string \<Rightarrow> exn + string" where
  "validatePathWithinRepo realpath cwd filePath repoRoot =
     (let initialPath = resolve cwd [repoRoot, filePath] in
      case realpath repoRoot of
        None \<Rightarrow> Inl (rootNotFound repoRoot)
      | Some resolvedRoot \<Rightarrow>
          (case realpath initialPath of
             None \<Rightarrow>
               (let parentDir = resolve cwd [initialPath, ''..''] in
                case realpath parentDir of
                  None \<Rightarrow> Inl (pathEscapesRoot filePath)
                | Some resolvedParent \<Rightarrow>
                    if resolvedParent \<noteq> resolvedRoot
                       \<and> \<not> startsWith resolvedParent (resolvedRoot @ sep)
                    then Inl (pathEscapesRoot filePath)
                    else Inr initialPath)
           | Some resolvedPath \<Rightarrow>
               if resolvedPath \<noteq> resolvedRoot
                  \<and> \<not> startsWith resolvedPath (resolvedRoot @ sep)
               then Inl (pathEscapesRoot filePath)
               else Inr resolvedPath))"

text \<open>A small file system for the examples: a repository with one file, a link that
  leaves it, and a sibling directory whose name extends the repository's.\<close>

definition example_fs :: "string \<Rightarrow> string option" where
  "example_fs = map_of
     [(''/repo'', ''/repo''),
      (''/repo/file.txt'', ''/repo/file.txt''),
      (''/repo/src'', ''/repo/src''),
      (''/repo/link'', ''/etc''),
      (''/repo-evil'', ''/repo-evil''),
      (''/repo-evil/file.txt'', ''/repo-evil/file.txt'')]"

section \<open>Sequencing computations that can throw\<close>

definition bindE :: "exn + 'a \<Rightarrow> ('a \<Rightarrow> exn + 'b) \<Rightarrow> exn + 'b" where
  "bindE r f = (case r of Inl e \<Rightarrow> Inl e | Inr a \<Rightarrow> f a)"

text \<open>\<open>try { r } catch (e) { h e }\<close> for a computation without effects on the model's state.\<close>

definition catchE :: "exn + 'a \<Rightarrow> (exn \<Rightarrow> exn + 'a) \<Rightarrow> exn + 'a" where
  "catchE r h = (case r of Inl e \<Rightarrow> h e | Inr a \<Rightarrow> Inr a)"

text \<open>A JavaScript value used as a condition: \<open>undefined\<close> and the empty string are falsy.\<close>

definition truthy :: "string option \<Rightarrow> bool" where
  "truthy v = (case v of None \<Rightarrow> False | Some s \<Rightarrow> s \<noteq> [])"

text \<open>\<open>a || b\<close> on optional strings.\<close>

definition orElse :: "string option \<Rightarrow> string option \<Rightarrow> string option" where
  "orElse a b = (if truthy a then a else b)"

text \<open>\<open>`${error}`\<close>: \<open>Error.prototype.toString\<close>, the name, a colon and the message.\<close>

fun errorToString :: "exn \<Rightarrow> string" where
  "errorToString (Error m) = (if m = [] then ''Error'' else ''Error: '' @ m)"
| "errorToString (WorkflowValidationSkipError m) =
     (if m = [] then ''WorkflowValidationSkipError'' else ''WorkflowValidationSkipError: '' @ m)"

type_synonym env = "string \<Rightarrow> string option"

section \<open>Retry policy\<close>

text \<open>
  Modelled from the spec: \<open>retryWithBackoff\<close> of utils/retry.ts, which github/token.ts
  imports and which is not among the source files. The spec's RetryPolicy invokes the
  operation; on failure it waits and retries until \<open>maxAttempts\<close> is exhausted, then
  re-raises the last error; the skip signal propagates at its first occurrence, bypassing
  the remaining attempts. The operation is indexed by the attempt, counted from 0, since
  each invocation can end differently; the delays are not modelled.
\<close>

definition nonRetryable :: "exn \<Rightarrow> bool" where
  "nonRetryable e = (case e of WorkflowValidationSkipError _ \<Rightarrow> True | Error _ \<Rightarrow> False)"

text \<open>
  Modelled from the spec: the loop of \<open>retryWithBackoff\<close> (utils/retry.ts, not among the
  source files). \<open>retryFrom operation more attempt\<close> makes the attempt numbered \<open>attempt\<close>
  with \<open>more\<close> attempts left after it; the error of the last attempt is re-raised.
\<close>

primrec retryFrom :: "(nat \<Rightarrow> exn + 'a) \<Rightarrow> nat \<Rightarrow> nat \<Rightarrow> exn + 'a" where
  "retryFrom operation 0 attempt = operation attempt"
| "retryFrom operation (Suc more) attempt =
     (case operation attempt of
        Inr v \<Rightarrow> Inr v
      | Inl e \<Rightarrow> if nonRetryable e then Inl e else retryFrom operation more (Suc attempt))"

text \<open>
  Modelled from the spec: \<open>retryWithBackoff\<close> (utils/retry.ts, not among the source files)
  with the attempt bound \<open>maxAttempts\<close>; the operation is invoked at least once.
\<close>

definition retryWithBackoff :: "nat \<Rightarrow> (nat \<Rightarrow> exn + 'a) \<Rightarrow> exn + 'a" where
  "retryWithBackoff maxAttempts operation = retryFrom operation (maxAttempts - 1) 0"

section \<open>Credential exchange (github/token.ts)\<close>

text \<open>
  The JSON body of the exchange response; a field is \<open>None\<close> when it is absent, as the
  optional chaining of the source reads it. \<open>error_code\<close> is \<open>error.details.error_code\<close>.
\<close>

record ExchangeJson =
  error_message :: "string option"
  error_code :: "string option"
  top_message :: "string option"
  json_token :: "string option"
  json_app_token :: "string option"

record ExchangeResponse =
  response_ok :: bool
  response_json :: "exn + ExchangeJson"

text \<open>
  What the credential exchange meets: the identity provider's answer and the endpoint's
  response at each attempt, and the retry wrapper's attempt bound.
\<close>

record auth_world =
  getIDToken_result :: "nat \<Rightarrow> exn + string"
  fetch_result :: "nat \<Rightarrow> string \<Rightarrow> permissions option \<Rightarrow> exn + ExchangeResponse"
  maxAttempts :: nat

definition getOidcToken :: "exn + string \<Rightarrow> exn + string" where
  "getOidcToken idToken =
     catchE idToken
       (\<lambda>error. Inl (Error (''Could not fetch an OIDC token. Did you remember to add ''
                            @ ''`id-token: write` to your workflow permissions?'')))"

definition exchangeForAppToken :: "exn + ExchangeResponse \<Rightarrow> exn + string" where
  "exchangeForAppToken fetched =
     bindE fetched (\<lambda>response.
       if \<not> response_ok response then
         bindE (response_json response) (\<lambda>responseJson.
           let errorCode = error_code responseJson in
           if errorCode = Some ''workflow_not_found_on_default_branch'' then
             Inl (WorkflowValidationSkipError
                    (case top_message responseJson of
                       Some m \<Rightarrow> m
                     | None \<Rightarrow> (case error_message responseJson of
                                  Some m \<Rightarrow> m
                                | None \<Rightarrow> ''Workflow validation failed'')))
           else
             Inl (Error (case error_message responseJson of
                           Some m \<Rightarrow> m
                         | None \<Rightarrow> ''Unknown error'')))
       else
         bindE (response_json response) (\<lambda>appTokenData.
           case orElse (json_token appTokenData) (json_app_token appTokenData) of
             None \<Rightarrow> Inl (Error ''App token not found in response'')
           | Some appToken \<Rightarrow>
               if appToken = [] then Inl (Error ''App token not found in response'')
               else Inr appToken))"

definition setupGitHubToken :: "env \<Rightarrow> auth_world \<Rightarrow> exn + string" where
  "setupGitHubToken env aw =
     (let providedToken = env ''OVERRIDE_GITHUB_TOKEN'' in
      if truthy providedToken then
        (case providedToken of Some t \<Rightarrow> Inr t | None \<Rightarrow> Inr [])
      else
        bindE (retryWithBackoff (maxAttempts aw) (\<lambda>attempt. getOidcToken (getIDToken_result aw attempt)))
          (\<lambda>oidcToken.
             let permissions = parseAdditionalPermissions (env ''ADDITIONAL_PERMISSIONS'') in
             bindE (retryWithBackoff (maxAttempts aw)
                      (\<lambda>attempt. exchangeForAppToken (fetch_result aw attempt oidcToken permissions)))
               (\<lambda>appToken. Inr appToken)))"

section \<open>Preparation (modes/tag/index.ts, modes/agent/index.ts, github/operations/git-config.ts)\<close>

record GitHubContext =
  isEntityContext :: bool
  ctx_actor :: string
  input_prompt :: string
  input_baseBranch :: string
  sshSigningKey :: string
  useCommitSigning :: bool

record BranchInfo =
  info_baseBranch :: string
  info_claudeBranch :: "string option"
  info_currentBranch :: string

record PrepareResult =
  result_commentId :: "nat option"
  result_branchInfo :: BranchInfo
  result_mcpConfig :: string

text \<open>
  The outcomes of the collaborators that preparation calls. \<open>sshKeyInstall_result\<close> is
  the writing of the signing key and its registration with git, \<open>gitConfigUser_result\<close>,
  \<open>gitUnsetExtraheader_result\<close> and \<open>gitRemoteSetUrl_result\<close> are the git commands of
  \<open>configureGitAuth\<close>, \<open>writePromptFile_result\<close> is the creation of the prompt directory
  and file, \<open>parseMcpConfig_result\<close> is \<open>JSON.parse\<close> of the MCP configuration.
\<close>

record prepare_world =
  checkHumanActor_result :: "exn + unit"
  createInitialComment_result :: "exn + nat"
  fetchGitHubData_result :: "exn + unit"
  setupBranch_result :: "exn + BranchInfo"
  sshKeyInstall_result :: "exn + unit"
  gitConfigUser_result :: "exn + unit"
  gitUnsetExtraheader_result :: "exn + unit"
  gitRemoteSetUrl_result :: "exn + unit"
  createPrompt_result :: "exn + unit"
  writePromptFile_result :: "exn + unit"
  prepareMcpConfig_result :: "exn + string"
  parseMcpConfig_result :: "exn + unit"

text \<open>
  \<open>configureGitAuth\<close>: the user name and e-mail are set, the header left by the checkout
  is removed (a failure there is caught and only logged), the remote URL is rewritten.
\<close>

definition configureGitAuth :: "prepare_world \<Rightarrow> exn + unit" where
  "configureGitAuth pw =
     bindE (gitConfigUser_result pw) (\<lambda>_.
     bindE (catchE (gitUnsetExtraheader_result pw) (\<lambda>e. Inr ())) (\<lambda>_.
     gitRemoteSetUrl_result pw))"

text \<open>\<open>setupSshSigning\<close>: the key is validated, then written and registered with git.\<close>

definition setupSshSigning :: "prepare_world \<Rightarrow> string \<Rightarrow> exn + unit" where
  "setupSshSigning pw key =
     (if trim key = [] then Inl (Error ''SSH signing key cannot be empty'')
      else if \<not> includes_str key ''BEGIN'' \<or> \<not> includes_str key ''PRIVATE KEY''
      then Inl (Error ''Invalid SSH private key format'')
      else sshKeyInstall_result pw)"

text \<open>Tag mode: the \<open>catch\<close> around \<open>configureGitAuth\<close> logs the error and throws it again.\<close>

definition prepareTagMode :: "prepare_world \<Rightarrow> GitHubContext \<Rightarrow> string \<Rightarrow> exn + PrepareResult" where
  "prepareTagMode pw context githubToken =
     (if \<not> isEntityContext context then Inl (Error ''Tag mode requires entity context'')
      else
        bindE (checkHumanActor_result pw) (\<lambda>_.
        bindE (createInitialComment_result pw) (\<lambda>commentId.
        bindE (fetchGitHubData_result pw) (\<lambda>githubData.
        bindE (setupBranch_result pw) (\<lambda>branchInfo.
        let useSshSigning = (sshSigningKey context \<noteq> []);
            useApiCommitSigning = (useCommitSigning context \<and> \<not> useSshSigning)
        in
        bindE (if useSshSigning then
                 bindE (setupSshSigning pw (sshSigningKey context)) (\<lambda>_.
                   catchE (configureGitAuth pw) (\<lambda>error. Inl error))
               else if \<not> useApiCommitSigning then
                 catchE (configureGitAuth pw) (\<lambda>error. Inl error)
               else Inr ()) (\<lambda>_.
        bindE (createPrompt_result pw) (\<lambda>_.
        bindE (prepareMcpConfig_result pw) (\<lambda>ourMcpConfig.
        Inr \<lparr>result_commentId = Some commentId,
             result_branchInfo = branchInfo,
             result_mcpConfig = ourMcpConfig\<rparr>))))))))"

text \<open>Agent mode: the \<open>catch\<close> around \<open>configureGitAuth\<close> logs the error and continues.\<close>

definition prepareAgentMode ::
  "prepare_world \<Rightarrow> env \<Rightarrow> GitHubContext \<Rightarrow> string \<Rightarrow> exn + PrepareResult" where
  "prepareAgentMode pw env context githubToken =
     bindE (checkHumanActor_result pw) (\<lambda>_.
     let useSshSigning = (sshSigningKey context \<noteq> []);
         useApiCommitSigning = (useCommitSigning context \<and> \<not> useSshSigning)
     in
     bindE (if useSshSigning then
              bindE (setupSshSigning pw (sshSigningKey context)) (\<lambda>_.
                catchE (configureGitAuth pw) (\<lambda>error. Inr ()))
            else if \<not> useApiCommitSigning then
              catchE (configureGitAuth pw) (\<lambda>error. Inr ())
            else Inr ()) (\<lambda>_.
     bindE (writePromptFile_result pw) (\<lambda>_.
     let claudeBranch = orElse (env ''CLAUDE_BRANCH'') None;
         baseBranch = (case orElse (env ''BASE_BRANCH'') (Some (input_baseBranch context)) of
                         Some b \<Rightarrow> if b = [] then ''main'' else b
                       | None \<Rightarrow> ''main'')
     in
     bindE (prepareMcpConfig_result pw) (\<lambda>ourMcpConfig.
     bindE (parseMcpConfig_result pw) (\<lambda>ourConfig.
     Inr \<lparr>result_commentId = None,
          result_branchInfo = \<lparr>info_baseBranch = baseBranch,
                               info_claudeBranch = claudeBranch,
                               info_currentBranch = baseBranch\<rparr>,
          result_mcpConfig = ourMcpConfig\<rparr>)))))"

section \<open>The orchestrator (entrypoints/run.ts)\<close>

text \<open>
  What a run does to the outside: outputs and the failure flag of the Actions toolkit,
  environment variables it sets, the call that updates the tracking comment, and the
  \<open>console.error\<close> calls of the cleanup block (\<open>ConsoleError\<close> with a label and the error
  object, \<open>ConsoleErrorMessage\<close> with a single string). In \<open>SetOutput\<close>, \<open>None\<close> is the
  value \<open>undefined\<close>.
\<close>

record UpdateCommentLinkParams =
  param_commentId :: nat
  param_githubToken :: string
  param_claudeBranch :: "string option"
  param_baseBranch :: string
  param_triggerUsername :: string
  param_claudeSuccess :: bool
  param_outputFile :: "string option"
  param_prepareSuccess :: bool
  param_prepareError :: "string option"
  param_useCommitSigning :: bool

datatype effect =
    SetOutput string "string option"
  | SetFailed string
  | SetEnv string string
  | UpdateCommentLink UpdateCommentLinkParams
  | ConsoleError string exn
  | ConsoleErrorMessage string

datatype Octokits = Octokits string

text \<open>The local variables of \<open>run\<close>, and the effects so far.\<close>

record run_state =
  githubToken :: "string option"
  commentId :: "nat option"
  claudeBranch :: "string option"
  baseBranch :: "string option"
  executionFile :: "string option"
  claudeSuccess :: bool
  prepareSuccess :: bool
  prepareError :: "string option"
  run_context :: "GitHubContext option"
  octokit :: "Octokits option"
  prepareCompleted :: bool
  effects :: "effect list"

definition init_state :: run_state where
  "init_state =
     \<lparr>githubToken = None, commentId = None, claudeBranch = None, baseBranch = None,
      executionFile = None, claudeSuccess = False, prepareSuccess = True,
      prepareError = None, run_context = None, octokit = None, prepareCompleted = False,
      effects = []\<rparr>"

text \<open>
  A block of statements completes normally with a value, by \<open>return\<close>, or by throwing.
\<close>

datatype 'a completion = Normal 'a | Return | Throw exn

type_synonym 'a prog = "run_state \<Rightarrow> 'a completion \<times> run_state"

definition bind :: "'a prog \<Rightarrow> ('a \<Rightarrow> 'b prog) \<Rightarrow> 'b prog" where
  "bind m f s =
     (case m s of
        (Normal a, s') \<Rightarrow> f a s'
      | (Return, s') \<Rightarrow> (Return, s')
      | (Throw e, s') \<Rightarrow> (Throw e, s'))"

definition skip :: "unit prog" where
  "skip s = (Normal (), s)"

definition await :: "exn + 'a \<Rightarrow> 'a prog" where
  "await r s = (case r of Inl e \<Rightarrow> (Throw e, s) | Inr a \<Rightarrow> (Normal a, s))"

definition assign :: "(run_state \<Rightarrow> run_state) \<Rightarrow> unit prog" where
  "assign f s = (Normal (), f s)"

definition emit :: "effect \<Rightarrow> unit prog" where
  "emit x s = (Normal (), s\<lparr>effects := effects s @ [x]\<rparr>)"

text \<open>
  \<open>core.setOutput(name, value)\<close> writes to the output file of the runner and throws when
  that file is missing or cannot be written. The sink says, for each output name, whether
  the write succeeds; the output is recorded when it does.
\<close>

type_synonym sink = "string \<Rightarrow> exn + unit"

definition setOutput :: "sink \<Rightarrow> string \<Rightarrow> string option \<Rightarrow> unit prog" where
  "setOutput sink name v = bind (await (sink name)) (\<lambda>_. emit (SetOutput name v))"

text \<open>The sink of a runner whose output file is in place.\<close>

definition acceptingSink :: sink where
  "acceptingSink name = Inr ()"

definition returnNow :: "'a prog" where
  "returnNow s = (Return, s)"

definition throw :: "exn \<Rightarrow> 'a prog" where
  "throw e s = (Throw e, s)"

text \<open>\<open>try { m } catch (error) { h error }\<close>.\<close>

definition tryCatch :: "'a prog \<Rightarrow> (exn \<Rightarrow> 'a prog) \<Rightarrow> 'a prog" where
  "tryCatch m h s = (case m s of (Throw e, s') \<Rightarrow> h e s' | r \<Rightarrow> r)"

text \<open>
  \<open>try { m } finally { fin }\<close>: the \<open>finally\<close> block runs however \<open>m\<close> completed; when it
  completes normally the completion of \<open>m\<close> stands, otherwise its own replaces it.
\<close>

definition tryFinally :: "unit prog \<Rightarrow> unit prog \<Rightarrow> unit prog" where
  "tryFinally m fin s =
     (case m s of
        (c, s') \<Rightarrow>
          (case fin s' of
             (Normal u, s'') \<Rightarrow> (c, s'')
           | (Return, s'') \<Rightarrow> (Return, s'')
           | (Throw e, s'') \<Rightarrow> (Throw e, s'')))"

record ClaudeRunResult =
  conclusion :: string
  run_executionFile :: "string option"
  sessionId :: "string option"
  structuredOutput :: "string option"

text \<open>The outcomes of the collaborators of the install and run phases.\<close>

record exec_world =
  appendGithubPath_result :: "exn + unit"
  spawnInstall_result :: "nat \<Rightarrow> exn + unit"
  validateEnvironmentVariables_result :: "exn + unit"
  setupClaudeCodeSettings_result :: "exn + unit"
  installPlugins_result :: "exn + unit"
  preparePrompt_result :: "exn + string"
  runClaude_result :: "exn + ClaudeRunResult"

text \<open>The outcomes of the collaborators of the cleanup block.\<close>

record cleanup_world =
  updateCommentLink_result :: "exn + unit"
  existsSync :: "string \<Rightarrow> bool"
  formatReport_result :: "exn + unit"
  rawReport_result :: "exn + unit"
  rmSigningKey_result :: "exn + unit"

text \<open>
  Everything outside the orchestrator that a run depends on. \<open>actionInputsPresent\<close> is the
  string returned by \<open>collectActionInputsPresence\<close>, which catches its own parse error.
\<close>

record world =
  process_env :: env
  actionInputsPresent :: string
  parseGitHubContext_result :: "exn + GitHubContext"
  detectMode_result :: "exn + string"
  auth :: auth_world
  createOctokit_result :: "exn + unit"
  checkWritePermissions_result :: "exn + bool"
  checkContainsTrigger_result :: "exn + bool"
  prep :: prepare_world
  exec :: exec_world
  cleanup :: cleanup_world

text \<open>One pass of the installation loop: the installer, then the \<open>PATH\<close> entry.\<close>

definition installOnce :: "env \<Rightarrow> exec_world \<Rightarrow> nat \<Rightarrow> exn + unit" where
  "installOnce env ew attempt =
     bindE (spawnInstall_result ew attempt) (\<lambda>_.
       if truthy (env ''GITHUB_PATH'') then appendGithubPath_result ew else Inr ())"

fun installAttempts :: "env \<Rightarrow> exec_world \<Rightarrow> nat list \<Rightarrow> exn + unit" where
  "installAttempts env ew [] = Inr ()"
| "installAttempts env ew (attempt # later) =
     catchE (installOnce env ew attempt)
       (\<lambda>error. if attempt = 3
                 then Inl (Error (''Failed to install Claude Code after 3 attempts: ''
                                   @ errorToString error))
                 else installAttempts env ew later)"

definition installClaudeCode :: "env \<Rightarrow> exec_world \<Rightarrow> exn + unit" where
  "installClaudeCode env ew =
     (if truthy (env ''PATH_TO_CLAUDE_CODE_EXECUTABLE'') then
        (if truthy (env ''GITHUB_PATH'') then appendGithubPath_result ew else Inr ())
      else installAttempts env ew [1, 2, 3])"

text \<open>\<open>writeStepSummary\<close>: a failure to format is logged and falls back to the raw report,
  and a failure of the fallback is logged.\<close>

definition writeStepSummary :: "env \<Rightarrow> cleanup_world \<Rightarrow> string \<Rightarrow> unit prog" where
  "writeStepSummary env cw file =
     (if \<not> truthy (env ''GITHUB_STEP_SUMMARY'') then skip
      else tryCatch (await (formatReport_result cw))
             (\<lambda>error.
                bind (emit (ConsoleErrorMessage (''Failed to format output: '' @ errorToString error)))
                  (\<lambda>_. tryCatch (await (rawReport_result cw))
                          (\<lambda>e. emit (ConsoleErrorMessage
                                       ''Failed to write raw output to step summary'')))))"

text \<open>The credential step of \<open>run\<close>, with its own \<open>catch\<close> for the skip signal.\<close>

definition authenticate :: "sink \<Rightarrow> world \<Rightarrow> unit prog" where
  "authenticate sink w =
     tryCatch
       (bind (await (setupGitHubToken (process_env w) (auth w)))
          (\<lambda>t. assign (\<lambda>s. s\<lparr>githubToken := Some t\<rparr>)))
       (\<lambda>error.
          case error of
            WorkflowValidationSkipError m \<Rightarrow>
              bind (setOutput sink ''skipped_due_to_workflow_validation_mismatch'' (Some ''true''))
                (\<lambda>_. returnNow)
          | Error m \<Rightarrow> throw error)"

text \<open>Phase 1 of the \<open>try\<close> block, up to \<open>prepareCompleted = true\<close>.\<close>

definition preparePhase_with :: "sink \<Rightarrow> world \<Rightarrow> PrepareResult prog" where
  "preparePhase_with sink w =
     bind (await (parseGitHubContext_result w)) (\<lambda>ctx.
     bind (assign (\<lambda>s. s\<lparr>run_context := Some ctx\<rparr>)) (\<lambda>_.
     bind (await (detectMode_result w)) (\<lambda>modeName.
     bind (authenticate sink w) (\<lambda>_.
     bind (\<lambda>s. (Normal (case githubToken s of Some t \<Rightarrow> t | None \<Rightarrow> []), s)) (\<lambda>tokenValue.
     bind (await (createOctokit_result w)) (\<lambda>_.
     bind (assign (\<lambda>s. s\<lparr>octokit := Some (Octokits tokenValue)\<rparr>)) (\<lambda>_.
     bind (emit (SetEnv ''GITHUB_TOKEN'' tokenValue)) (\<lambda>_.
     bind (emit (SetEnv ''GH_TOKEN'' tokenValue)) (\<lambda>_.
     bind (if isEntityContext ctx then
             bind (await (checkWritePermissions_result w)) (\<lambda>hasWritePermissions.
               if \<not> hasWritePermissions
               then throw (Error ''Actor does not have write permissions to the repository'')
               else skip)
           else skip) (\<lambda>_.
     bind (if modeName = ''tag'' then
             (if isEntityContext ctx then await (checkContainsTrigger_result w)
              else await (Inr False))
           else await (Inr (input_prompt ctx \<noteq> []))) (\<lambda>containsTrigger.
     bind (if \<not> containsTrigger then
             bind (setOutput sink ''github_token'' (Some tokenValue)) (\<lambda>_. returnNow)
           else skip) (\<lambda>_.
     bind (await (if modeName = ''tag'' then prepareTagMode (prep w) ctx tokenValue
                  else prepareAgentMode (prep w) (process_env w) ctx tokenValue)) (\<lambda>prepareResult.
     bind (assign (\<lambda>s. s\<lparr>commentId := result_commentId prepareResult,
                         claudeBranch := info_claudeBranch (result_branchInfo prepareResult),
                         baseBranch := Some (info_baseBranch (result_branchInfo prepareResult)),
                         prepareCompleted := True\<rparr>)) (\<lambda>_.
     (\<lambda>s. (Normal prepareResult, s))))))))))))))))"

text \<open>Phases 2 and 3 of the \<open>try\<close> block: the installation and the run of the workload.\<close>

definition executePhase_with :: "sink \<Rightarrow> world \<Rightarrow> PrepareResult \<Rightarrow> unit prog" where
  "executePhase_with sink w prepareResult =
     bind (await (installClaudeCode (process_env w) (exec w))) (\<lambda>_.
     bind (emit (SetEnv ''INPUT_ACTION_INPUTS_PRESENT'' (actionInputsPresent w))) (\<lambda>_.
     bind (emit (SetEnv ''CLAUDE_CODE_ACTION'' ''1'')) (\<lambda>_.
     bind (emit (SetEnv ''DETAILED_PERMISSION_MESSAGES'' ''1'')) (\<lambda>_.
     bind (await (validateEnvironmentVariables_result (exec w))) (\<lambda>_.
     bind (await (setupClaudeCodeSettings_result (exec w))) (\<lambda>_.
     bind (await (installPlugins_result (exec w))) (\<lambda>_.
     bind (await (preparePrompt_result (exec w))) (\<lambda>promptConfig.
     bind (await (runClaude_result (exec w))) (\<lambda>claudeResult.
     bind (assign (\<lambda>s. s\<lparr>claudeSuccess := (conclusion claudeResult = ''success''),
                         executionFile := run_executionFile claudeResult\<rparr>)) (\<lambda>_.
     bind (if truthy (run_executionFile claudeResult)
           then setOutput sink ''execution_file'' (run_executionFile claudeResult)
           else skip) (\<lambda>_.
     bind (if truthy (sessionId claudeResult)
           then setOutput sink ''session_id'' (sessionId claudeResult)
           else skip) (\<lambda>_.
     bind (if truthy (structuredOutput claudeResult)
           then setOutput sink ''structured_output'' (structuredOutput claudeResult)
           else skip) (\<lambda>_.
     setOutput sink ''conclusion'' (Some (conclusion claudeResult)))))))))))))))"

definition tryBlock_with :: "sink \<Rightarrow> world \<Rightarrow> unit prog" where
  "tryBlock_with sink w =
     bind (preparePhase_with sink w) (\<lambda>prepareResult. executePhase_with sink w prepareResult)"

text \<open>The \<open>catch\<close> block of \<open>run\<close>.\<close>

definition catchBlock :: "exn \<Rightarrow> unit prog" where
  "catchBlock error =
     (let errorMessage = message error in
      bind (\<lambda>s. if \<not> prepareCompleted s
                 then assign (\<lambda>s. s\<lparr>prepareSuccess := False, prepareError := Some errorMessage\<rparr>) s
                 else skip s) (\<lambda>_.
      emit (SetFailed (''Action failed with error: '' @ errorMessage))))"

text \<open>
  The \<open>finally\<close> block of \<open>run\<close>, in its three steps. The tracking comment is updated when
  \<open>commentId && context && isEntityContext(context) && githubToken && octokit\<close> holds;
  \<open>updateParams\<close> is that test together with the argument of the call.
\<close>

definition updateParams :: "run_state \<Rightarrow> UpdateCommentLinkParams option" where
  "updateParams s =
     (case (commentId s, run_context s, githubToken s, octokit s) of
        (Some cid, Some ctx, Some tok, Some client) \<Rightarrow>
          if cid \<noteq> 0 \<and> isEntityContext ctx \<and> tok \<noteq> [] then
            Some \<lparr>param_commentId = cid,
                  param_githubToken = tok,
                  param_claudeBranch = claudeBranch s,
                  param_baseBranch = (case baseBranch s of
                                        Some b \<Rightarrow> if b = [] then ''main'' else b
                                      | None \<Rightarrow> ''main''),
                  param_triggerUsername = ctx_actor ctx,
                  param_claudeSuccess = claudeSuccess s,
                  param_outputFile = executionFile s,
                  param_prepareSuccess = prepareSuccess s,
                  param_prepareError = prepareError s,
                  param_useCommitSigning = useCommitSigning ctx\<rparr>
          else None
      | _ \<Rightarrow> None)"

definition updateTrackingComment :: "world \<Rightarrow> unit prog" where
  "updateTrackingComment w s =
     (case updateParams s of
        Some params \<Rightarrow>
          tryCatch
            (bind (emit (UpdateCommentLink params))
               (\<lambda>_. await (updateCommentLink_result (cleanup w))))
            (\<lambda>error. emit (ConsoleError ''Error updating comment with job link:'' error))
            s
      | None \<Rightarrow> skip s)"

definition writeReport :: "world \<Rightarrow> unit prog" where
  "writeReport w s =
     (case executionFile s of
        Some file \<Rightarrow>
          if file \<noteq> [] \<and> existsSync (cleanup w) file
             \<and> process_env w ''DISPLAY_REPORT'' \<noteq> Some ''false''
          then writeStepSummary (process_env w) (cleanup w) file s
          else skip s
      | None \<Rightarrow> skip s)"

definition setRemainingOutputs :: "sink \<Rightarrow> unit prog" where
  "setRemainingOutputs sink =
     bind (\<lambda>s. setOutput sink ''branch_name'' (claudeBranch s) s) (\<lambda>_.
     (\<lambda>s. setOutput sink ''github_token'' (githubToken s) s))"

definition finallyBlock :: "sink \<Rightarrow> world \<Rightarrow> unit prog" where
  "finallyBlock sink w =
     bind (updateTrackingComment w) (\<lambda>_.
     bind (writeReport w) (\<lambda>_.
     setRemainingOutputs sink))"

text \<open>The effects of \<open>updateTrackingComment\<close>: the call, and the log entry when it fails.\<close>

definition commentEffects :: "world \<Rightarrow> run_state \<Rightarrow> effect list" where
  "commentEffects w s =
     (case updateParams s of
        None \<Rightarrow> []
      | Some p \<Rightarrow> UpdateCommentLink p #
          (case updateCommentLink_result (cleanup w) of
             Inl err \<Rightarrow> [ConsoleError ''Error updating comment with job link:'' err]
           | Inr u \<Rightarrow> []))"

text \<open>The effects of \<open>writeReport\<close>: the log entries of the report that could not be
  written.\<close>

definition reportEffects :: "world \<Rightarrow> run_state \<Rightarrow> effect list" where
  "reportEffects w s =
     (case executionFile s of
        None \<Rightarrow> []
      | Some file \<Rightarrow>
          if file \<noteq> [] \<and> existsSync (cleanup w) file
             \<and> process_env w ''DISPLAY_REPORT'' \<noteq> Some ''false''
             \<and> truthy (process_env w ''GITHUB_STEP_SUMMARY'')
          then (case formatReport_result (cleanup w) of
                  Inr u \<Rightarrow> []
                | Inl err \<Rightarrow>
                    ConsoleErrorMessage (''Failed to format output: '' @ errorToString err) #
                    (case rawReport_result (cleanup w) of
                       Inr u \<Rightarrow> []
                     | Inl e \<Rightarrow> [ConsoleErrorMessage ''Failed to write raw output to step summary'']))
          else [])"

text \<open>The values of the output \<open>name\<close> among the effects, in order.\<close>

definition outputsOf :: "string \<Rightarrow> effect list \<Rightarrow> string option list" where
  "outputsOf name es = concat (map (\<lambda>x. case x of SetOutput n v \<Rightarrow> if n = name then [v] else [] | _ \<Rightarrow> []) es)"

definition failures :: "effect list \<Rightarrow> string list" where
  "failures es = concat (map (\<lambda>x. case x of SetFailed m \<Rightarrow> [m] | _ \<Rightarrow> []) es)"

text \<open>\<open>run\<close> on a runner with the given output sink.\<close>

definition run_with :: "sink \<Rightarrow> world \<Rightarrow> unit completion \<times> run_state" where
  "run_with sink w =
     tryFinally (tryCatch (tryBlock_with sink w) catchBlock) (finallyBlock sink w) init_state"

text \<open>
  The run, and the phases of its \<open>try\<close> block, on a runner whose output file is in place:
  every \<open>core.setOutput\<close> succeeds.
\<close>

definition preparePhase :: "world \<Rightarrow> PrepareResult prog" where
  "preparePhase w = preparePhase_with acceptingSink w"

definition executePhase :: "world \<Rightarrow> PrepareResult \<Rightarrow> unit prog" where
  "executePhase w prepareResult = executePhase_with acceptingSink w prepareResult"

definition tryBlock :: "world \<Rightarrow> unit prog" where
  "tryBlock w = tryBlock_with acceptingSink w"

definition run :: "world \<Rightarrow> unit completion \<times> run_state" where
  "run w = run_with acceptingSink w"





section \<open>The post step (entrypoints/cleanup-ssh-signing.ts)\<close>

definition cleanupSshSigning :: "cleanup_world \<Rightarrow> exn + unit" where
  "cleanupSshSigning cw = catchE (rmSigningKey_result cw) (\<lambda>error. Inr ())"

definition run_cleanup_ssh_signing :: "cleanup_world \<Rightarrow> exn + unit" where
  "run_cleanup_ssh_signing cw = catchE (cleanupSshSigning cw) (\<lambda>error. Inr ())"

section \<open>Example runs\<close>

definition skip_response :: ExchangeResponse where
  "skip_response =
     \<lparr>response_ok = False,
      response_json = Inr \<lparr>error_message = Some ''Workflow not found on the default branch'',
                           error_code = Some ''workflow_not_found_on_default_branch'',
                           top_message = None, json_token = None, json_app_token = None\<rparr>\<rparr>"

definition unavailable_response :: ExchangeResponse where
  "unavailable_response =
     \<lparr>response_ok = False,
      response_json = Inr \<lparr>error_message = Some ''Service unavailable'', error_code = None,
                           top_message = None, json_token = None, json_app_token = None\<rparr>\<rparr>"

definition token_response :: ExchangeResponse where
  "token_response =
     \<lparr>response_ok = True,
      response_json = Inr \<lparr>error_message = None, error_code = None, top_message = None,
                           json_token = Some ''ghs_app_token'', json_app_token = None\<rparr>\<rparr>"

definition issue_comment_context :: GitHubContext where
  "issue_comment_context =
     \<lparr>isEntityContext = True, ctx_actor = ''alice'', input_prompt = [], input_baseBranch = [],
      sshSigningKey = [], useCommitSigning = False\<rparr>"


text \<open>A run in tag mode in which every collaborator succeeds.\<close>

definition tag_world :: world where
  "tag_world =
     \<lparr>process_env = Map.empty,
      actionInputsPresent = ''{}'',
      parseGitHubContext_result = Inr issue_comment_context,
      detectMode_result = Inr ''tag'',
      auth = \<lparr>getIDToken_result = (\<lambda>attempt. Inr ''oidc''),
               fetch_result = (\<lambda>attempt oidcToken permissions. Inr token_response),
               maxAttempts = 3\<rparr>,
      createOctokit_result = Inr (),
      checkWritePermissions_result = Inr True,
      checkContainsTrigger_result = Inr True,
      prep = \<lparr>checkHumanActor_result = Inr (),
               createInitialComment_result = Inr 42,
               fetchGitHubData_result = Inr (),
               setupBranch_result = Inr \<lparr>info_baseBranch = ''main'',
                                          info_claudeBranch = Some ''claude/issue-7'',
                                          info_currentBranch = ''claude/issue-7''\<rparr>,
               sshKeyInstall_result = Inr (),
               gitConfigUser_result = Inr (),
               gitUnsetExtraheader_result = Inr (),
               gitRemoteSetUrl_result = Inr (),
               createPrompt_result = Inr (),
               writePromptFile_result = Inr (),
               prepareMcpConfig_result = Inr ''{}'',
               parseMcpConfig_result = Inr ()\<rparr>,
      exec = \<lparr>appendGithubPath_result = Inr (),
               spawnInstall_result = (\<lambda>attempt. Inr ()),
               validateEnvironmentVariables_result = Inr (),
               setupClaudeCodeSettings_result = Inr (),
               installPlugins_result = Inr (),
               preparePrompt_result = Inr ''/tmp/claude-prompts/claude-prompt.txt'',
               runClaude_result = Inr \<lparr>conclusion = ''success'',
                                         run_executionFile = Some ''/tmp/execution.json'',
                                         sessionId = None, structuredOutput = None\<rparr>\<rparr>,
      cleanup = \<lparr>updateCommentLink_result = Inr (),
                  existsSync = (\<lambda>file. True),
                  formatReport_result = Inr (),
                  rawReport_result = Inr (),
                  rmSigningKey_result = Inr ()\<rparr>\<rparr>"

text \<open>The exchange is refused twice, then answers with the workflow-validation code.\<close>

definition skip_world :: world where
  "skip_world =
     tag_world\<lparr>auth := (auth tag_world)
       \<lparr>fetch_result := (\<lambda>attempt oidcToken permissions.
                            if attempt < 2 then Inr unavailable_response else Inr skip_response)\<rparr>\<rparr>"

text \<open>The same error thrown by preparation and by the workload.\<close>

definition prepare_failure_world :: world where
  "prepare_failure_world =
     tag_world\<lparr>prep := (prep tag_world)\<lparr>setupBranch_result := Inl (Error ''boom'')\<rparr>\<rparr>"

definition execute_failure_world :: world where
  "execute_failure_world =
     tag_world\<lparr>exec := (exec tag_world)\<lparr>runClaude_result := Inl (Error ''boom'')\<rparr>\<rparr>"

text \<open>The tracking comment cannot be updated after a failed workload.\<close>

definition cleanup_failure_world :: world where
  "cleanup_failure_world =
     execute_failure_world\<lparr>cleanup := (cleanup execute_failure_world)
       \<lparr>updateCommentLink_result := Inl (Error ''comment is gone'')\<rparr>\<rparr>"




text \<open>The output file of the runner is missing: every \<open>core.setOutput\<close> throws.\<close>

definition unwritableSink :: sink where
  "unwritableSink name = Inl (Error ''Missing file at path: /home/runner/_temp/set_output'')"


section \<open>Strings: prefixes and suffixes\<close>

lemma startsWith_iff: "startsWith s p \<longleftrightarrow> (\<exists>r. s = p @ r)"
proof
  assume "startsWith s p"
  then have "s = p @ drop (length p) s"
    unfolding startsWith_def by (metis append_take_drop_id)
  then show "\<exists>r. s = p @ r" ..
next
  assume "\<exists>r. s = p @ r"
  then show "startsWith s p" unfolding startsWith_def by auto
qed

lemma endsWith_iff: "endsWith s p \<longleftrightarrow> (\<exists>r. s = r @ p)"
proof
  assume "endsWith s p"
  then have "s = take (length s - length p) s @ p"
    unfolding endsWith_def by (metis append_take_drop_id)
  then show "\<exists>r. s = r @ p" ..
next
  assume "\<exists>r. s = r @ p"
  then show "endsWith s p" unfolding endsWith_def by auto
qed

section \<open>Actor filter: properties\<close>

lemma excludeLoop_iff: "excludeLoop actor ps \<longleftrightarrow> (\<exists>p \<in> set ps. actorMatchesPattern actor p)"
  by (induction ps) auto

lemma includeLoop_iff: "includeLoop actor ps \<longleftrightarrow> (\<exists>p \<in> set ps. actorMatchesPattern actor p)"
  by (induction ps) auto

text \<open>
  Claim C9. For every actor and every pair of include and exclude lists: when some exclude
  pattern matches the actor the result is false whatever the include list is; otherwise,
  with a non-empty include list, the result is true exactly when some include pattern
  matches; with both lists empty the result is true. A pattern matches an actor exactly
  when it equals the actor, or it is \<open>*[bot]\<close> and the actor ends with \<open>[bot]\<close>.
\<close>

theorem shouldIncludeCommentByActor_spec:
  "((\<exists>p \<in> set excludeActors. actorMatchesPattern actor p) \<longrightarrow>
      shouldIncludeCommentByActor actor includeActors excludeActors = False)
   \<and> (\<not> (\<exists>p \<in> set excludeActors. actorMatchesPattern actor p) \<and> includeActors \<noteq> [] \<longrightarrow>
      shouldIncludeCommentByActor actor includeActors excludeActors
        = (\<exists>p \<in> set includeActors. actorMatchesPattern actor p))
   \<and> shouldIncludeCommentByActor actor [] [] = True
   \<and> (actorMatchesPattern actor pattern
        \<longleftrightarrow> actor = pattern \<or> (pattern = ''*[bot]'' \<and> (\<exists>name. actor = name @ ''[bot]'')))"
proof -
  have m: "actorMatchesPattern actor pattern
        \<longleftrightarrow> actor = pattern \<or> (pattern = ''*[bot]'' \<and> (\<exists>name. actor = name @ ''[bot]''))"
    unfolding actorMatchesPattern_def endsWith_iff by auto
  have e: "(\<exists>p \<in> set excludeActors. actorMatchesPattern actor p) \<longrightarrow>
      shouldIncludeCommentByActor actor includeActors excludeActors = False"
    unfolding shouldIncludeCommentByActor_def excludeLoop_iff by auto
  have i: "\<not> (\<exists>p \<in> set excludeActors. actorMatchesPattern actor p) \<and> includeActors \<noteq> [] \<longrightarrow>
      shouldIncludeCommentByActor actor includeActors excludeActors
        = (\<exists>p \<in> set includeActors. actorMatchesPattern actor p)"
    unfolding shouldIncludeCommentByActor_def excludeLoop_iff includeLoop_iff by auto
  have n: "shouldIncludeCommentByActor actor [] [] = True"
    unfolding shouldIncludeCommentByActor_def by simp
  from m e i n show ?thesis by blast
qed

theorem shouldIncludeCommentByActor_spec_witness:
  "shouldIncludeCommentByActor ''dependabot[bot]'' [''*[bot]''] [''dependabot[bot]''] = False
   \<and> shouldIncludeCommentByActor ''renovate[bot]'' [''alice'', ''*[bot]''] [''dependabot[bot]''] = True
   \<and> shouldIncludeCommentByActor ''bob'' [''alice'', ''*[bot]''] [''dependabot[bot]''] = False
   \<and> actorMatchesPattern ''renovate[bot]'' ''*[bot]''
   \<and> \<not> actorMatchesPattern ''bob'' ''*[bot]''"
proof -
  have a: "actorMatchesPattern ''dependabot[bot]'' ''dependabot[bot]''"
    by (simp add: actorMatchesPattern_def)
  have b: "actorMatchesPattern ''renovate[bot]'' ''*[bot]''"
    by (simp add: actorMatchesPattern_def endsWith_def)
  have c: "\<not> actorMatchesPattern ''renovate[bot]'' ''dependabot[bot]''"
    by (simp add: actorMatchesPattern_def)
  have d: "\<not> actorMatchesPattern ''bob'' ''dependabot[bot]''"
    "\<not> actorMatchesPattern ''bob'' ''alice''" "\<not> actorMatchesPattern ''bob'' ''*[bot]''"
    by (simp_all add: actorMatchesPattern_def endsWith_def)
  have e: "\<not> actorMatchesPattern ''renovate[bot]'' ''alice''"
    by (simp add: actorMatchesPattern_def)
  show ?thesis
    using shouldIncludeCommentByActor_spec
            [of "[''dependabot[bot]'']" "''dependabot[bot]''" "[''*[bot]'']" "''*[bot]''"]
          shouldIncludeCommentByActor_spec
            [of "[''dependabot[bot]'']" "''renovate[bot]''" "[''alice'', ''*[bot]'']" "''*[bot]''"]
          shouldIncludeCommentByActor_spec
            [of "[''dependabot[bot]'']" "''bob''" "[''alice'', ''*[bot]'']" "''*[bot]''"]
          a b c d e
    by simp
qed

section \<open>Permission overlay: properties\<close>


lemma dropWhile_all: "(\<forall>c \<in> set s. P c) \<Longrightarrow> dropWhile P s = []"
  by (induction s) auto

lemma trim_all_ws: "(\<forall>c \<in> set s. isWhitespace c) \<Longrightarrow> trim s = []"
  by (simp add: trim_def dropWhile_all)

lemma dropWhile_hd: "s \<noteq> [] \<Longrightarrow> \<not> P (hd s) \<Longrightarrow> dropWhile P s = s"
  by (cases s) auto

lemma trim_id: "s \<noteq> [] \<Longrightarrow> \<not> isWhitespace (hd s) \<Longrightarrow> \<not> isWhitespace (last s) \<Longrightarrow> trim s = s"
  by (simp add: trim_def dropWhile_hd hd_rev)

lemma trim_space_Cons: "isWhitespace c \<Longrightarrow> trim (c # s) = trim s"
  by (simp add: trim_def)

lemma splitOn_absent: "c \<notin> set s \<Longrightarrow> splitOn c s = [s]"
  by (induction s) auto

lemma takeWhile_first: "c \<notin> set k \<Longrightarrow> takeWhile (\<lambda>x. x \<noteq> c) (k @ c # r) = k"
  by (induction k) auto

lemma indexOf_first: "c \<notin> set k \<Longrightarrow> indexOf (k @ c # r) c = Some (length k)"
  by (simp add: indexOf_def takeWhile_first)

lemma map_of_spread: "map_of (spread base extra) = map_of base ++ map_of (rev extra)"
  unfolding spread_def
proof (induction extra arbitrary: base)
  case Nil
  then show ?case by simp
next
  case (Cons a extra)
  obtain k v where a: "a = (k, v)" by (cases a)
  have "map_of (AList.update k v base) ++ map_of (rev extra)
          = map_of base ++ ([k \<mapsto> v] ++ map_of (rev extra))"
    by (rule ext) (simp add: AList.update_conv' map_add_def split: option.splits)
  then show ?case by (simp add: a Cons.IH)
qed

lemma map_of_rev_distinct: "distinct (map fst xs) \<Longrightarrow> map_of (rev xs) = map_of xs"
proof (induction xs)
  case Nil
  then show ?case by simp
next
  case (Cons a xs)
  obtain k v where a: "a = (k, v)" by (cases a)
  from Cons.prems have nk: "k \<notin> fst ` set xs" and d: "distinct (map fst xs)" by (auto simp: a)
  have "map_of (rev xs) k = None" using Cons.IH[OF d] nk by (simp add: map_of_eq_None_iff)
  then have "[k \<mapsto> v] ++ map_of (rev xs) = (map_of (rev xs))(k \<mapsto> v)"
    by (intro ext) (auto simp: map_add_def split: option.splits)
  then show ?case using Cons.IH[OF d] by (simp add: a)
qed

lemma distinct_parseLine: "distinct (map fst al) \<Longrightarrow> distinct (map fst (parseLine l al))"
  by (auto simp: parseLine_def assignProp_def Let_def distinct_update split: option.splits)

lemma distinct_fold_parseLine: "distinct (map fst al) \<Longrightarrow> distinct (map fst (fold parseLine ls al))"
  by (induction ls arbitrary: al) (auto simp: distinct_parseLine)

lemma distinct_parseLines: "distinct (map fst (parseLines ls))"
  by (simp add: parseLines_def distinct_fold_parseLine)

lemma parse_single_line:
  assumes k: "k \<noteq> []" "\<not> isWhitespace (hd k)" "\<not> isWhitespace (last k)"
             "CHR '':'' \<notin> set k" "CHR 0x0A \<notin> set k" "k \<noteq> ''__proto__''"
      and v: "v \<noteq> []" "\<not> isWhitespace (hd v)" "\<not> isWhitespace (last v)" "CHR 0x0A \<notin> set v"
  shows "parseLines (splitOn CHR 0x0A (k @ '': '' @ v)) = [(k, v)]"
proof -
  let ?raw = "k @ '': '' @ v"
  have s: "splitOn CHR 0x0A ?raw = [?raw]"
    using k(5) v(4) by (intro splitOn_absent) auto
  have t: "trim ?raw = ?raw"
    using k(1,2) v(1,3) by (intro trim_id) auto
  have i: "indexOf ?raw CHR '':'' = Some (length k)"
    using indexOf_first[OF k(4), of "'' '' @ v"] by simp
  have tk: "trim (take (length k) ?raw) = k"
    using k(1,2,3) by (simp add: trim_id)
  have "trim (drop (length k + 1) ?raw) = trim (CHR 0x20 # v)" by simp
  also have "\<dots> = trim v" by (rule trim_space_Cons) (simp add: isWhitespace_def)
  also have "\<dots> = v" using v(1,2,3) by (rule trim_id)
  finally have tv: "trim (drop (length k + 1) ?raw) = v" .
  have "parseLine ?raw [] = [(k, v)]"
    unfolding parseLine_def t Let_def i using tk tv k(1,6) v(1)
    by (simp add: assignProp_def)
  then show ?thesis unfolding parseLines_def s by simp
qed

lemma parse_single:
  assumes k: "k \<noteq> []" "\<not> isWhitespace (hd k)" "\<not> isWhitespace (last k)"
             "CHR '':'' \<notin> set k" "CHR 0x0A \<notin> set k" "k \<noteq> ''__proto__''"
      and v: "v \<noteq> []" "\<not> isWhitespace (hd v)" "\<not> isWhitespace (last v)" "CHR 0x0A \<notin> set v"
  shows "parseAdditionalPermissions (Some (k @ '': '' @ v))
           = Some (AList.update k v DEFAULT_PERMISSIONS)"
proof -
  let ?raw = "k @ '': '' @ v"
  have t: "trim ?raw = ?raw"
    using k(1,2) v(1,3) by (intro trim_id) auto
  show ?thesis
    unfolding parseAdditionalPermissions_def option.case t parse_single_line[OF assms] Let_def
    using k(1) by (simp add: spread_def)
qed

lemma overlay_lookup:
  assumes "parseAdditionalPermissions (Some raw) = Some r"
  shows "map_of r key = (case map_of (parseLines (splitOn CHR 0x0A raw)) key of
                           Some v \<Rightarrow> Some v | None \<Rightarrow> map_of DEFAULT_PERMISSIONS key)"
proof -
  from assms have "r = spread DEFAULT_PERMISSIONS (parseLines (splitOn CHR 0x0A raw))"
    by (auto simp: parseAdditionalPermissions_def Let_def split: if_splits)
  then show ?thesis
    by (simp add: map_of_spread map_of_rev_distinct distinct_parseLines map_add_def)
qed



lemma default_keys_wellFormed: "k \<in> fst ` set DEFAULT_PERMISSIONS \<Longrightarrow> wellFormedKey k"
  by (auto simp: DEFAULT_PERMISSIONS_def wellFormedKey_def isWhitespace_def)

lemma splitOn_nonempty: "splitOn c s \<noteq> []"
  by (induction s) (auto simp: Let_def)

lemma splitOn_append: "splitOn c (a @ c # b) = splitOn c a @ splitOn c b"
  by (induction a) (auto simp: Let_def splitOn_nonempty)

lemma splitOn_chars: "l \<in> set (splitOn c s) \<Longrightarrow> set l \<subseteq> set s"
proof (induction s arbitrary: l)
  case Nil
  then show ?case by simp
next
  case (Cons x xs)
  show ?case
  proof (cases "x = c")
    case True
    with Cons show ?thesis by auto
  next
    case False
    obtain y ys where r: "splitOn c xs = y # ys"
      using splitOn_nonempty[of c xs] by (cases "splitOn c xs") auto
    from Cons.prems False r have "l = x # y \<or> l \<in> set ys" by (simp add: Let_def)
    then show ?thesis
    proof
      assume "l = x # y"
      moreover have "set y \<subseteq> set xs" using Cons.IH[of y] r by simp
      ultimately show ?thesis by auto
    next
      assume "l \<in> set ys"
      then have "set l \<subseteq> set xs" using Cons.IH[of l] r by simp
      then show ?thesis by auto
    qed
  qed
qed

lemma trim_empty_iff: "trim s = [] \<longleftrightarrow> (\<forall>c \<in> set s. isWhitespace c)"
proof
  assume t: "trim s = []"
  show "\<forall>c \<in> set s. isWhitespace c"
  proof (rule ccontr)
    assume "\<not> (\<forall>c \<in> set s. isWhitespace c)"
    then have d: "dropWhile isWhitespace s \<noteq> []" by (simp add: dropWhile_eq_Nil_conv)
    then have "\<not> isWhitespace (hd (dropWhile isWhitespace s))" by (rule hd_dropWhile)
    moreover have "hd (dropWhile isWhitespace s) \<in> set (rev (dropWhile isWhitespace s))"
      using d by simp
    ultimately have "dropWhile isWhitespace (rev (dropWhile isWhitespace s)) \<noteq> []"
      by (auto simp: dropWhile_eq_Nil_conv)
    with t show False by (simp add: trim_def)
  qed
next
  assume "\<forall>c \<in> set s. isWhitespace c"
  then show "trim s = []" by (rule trim_all_ws)
qed

lemma parseLine_blank: "trim l = [] \<Longrightarrow> parseLine l a = a"
  by (simp add: parseLine_def)

lemma fold_blank: "\<forall>l \<in> set ls. trim l = [] \<Longrightarrow> fold parseLine ls a = a"
  by (induction ls arbitrary: a) (auto simp: parseLine_blank)

lemma parseLines_blank:
  assumes "trim s = []"
  shows "parseLines (splitOn CHR 0x0A s) = []"
proof -
  have "\<forall>l \<in> set (splitOn CHR 0x0A s). trim l = []"
    using assms splitOn_chars[of _ "CHR 0x0A" s] by (auto simp: trim_empty_iff)
  then show ?thesis by (simp add: parseLines_def fold_blank)
qed

lemma parseLine_wellFormed:
  assumes "wellFormedKey k" "wellFormedValue v"
  shows "parseLine (k @ '': '' @ v) a = AList.update k v a"
proof -
  let ?raw = "k @ '': '' @ v"
  from assms have k: "k \<noteq> []" "\<not> isWhitespace (hd k)" "\<not> isWhitespace (last k)"
             "CHR '':'' \<notin> set k" "k \<noteq> ''__proto__''"
      and v: "v \<noteq> []" "\<not> isWhitespace (hd v)" "\<not> isWhitespace (last v)"
    by (simp_all add: wellFormedKey_def wellFormedValue_def)
  have t: "trim ?raw = ?raw"
    using k(1,2) v(1,3) by (intro trim_id) auto
  have i: "indexOf ?raw CHR '':'' = Some (length k)"
    using indexOf_first[OF k(4), of "'' '' @ v"] by simp
  have tk: "trim (take (length k) ?raw) = k"
    using k(1,2,3) by (simp add: trim_id)
  have "trim (drop (length k + 1) ?raw) = trim (CHR 0x20 # v)" by simp
  also have "\<dots> = trim v" by (rule trim_space_Cons) (simp add: isWhitespace_def)
  also have "\<dots> = v" using v(1,2,3) by (rule trim_id)
  finally have tv: "trim (drop (length k + 1) ?raw) = v" .
  show ?thesis
    unfolding parseLine_def t Let_def i using tk tv k(1,5) v(1)
    by (simp add: assignProp_def)
qed

lemma update_nonempty: "AList.update k v a \<noteq> []"
  by (cases a) auto

lemma overlay_of:
  "parseAdditionalPermissions (Some raw) =
     (if parseLines (splitOn CHR 0x0A raw) = [] then None
      else Some (spread DEFAULT_PERMISSIONS (parseLines (splitOn CHR 0x0A raw))))"
proof (cases "trim raw = []")
  case True
  then have "parseAdditionalPermissions (Some raw) = None"
    by (simp add: parseAdditionalPermissions_def)
  with parseLines_blank[OF True] show ?thesis by simp
next
  case False
  then have "raw \<noteq> []" by (auto simp: trim_def)
  with False show ?thesis by (simp add: parseAdditionalPermissions_def Let_def)
qed

lemma map_of_overlay:
  "distinct (map fst a) \<Longrightarrow>
   map_of (spread DEFAULT_PERMISSIONS a) key =
     (case map_of a key of Some u \<Rightarrow> Some u | None \<Rightarrow> map_of DEFAULT_PERMISSIONS key)"
  by (simp add: map_of_spread map_of_rev_distinct map_add_def)

lemma later_line_wins:
  assumes k: "wellFormedKey k" and v: "wellFormedValue v"
  shows "\<exists>r. parseAdditionalPermissions (Some (pre @ [CHR 0x0A] @ k @ '': '' @ v)) = Some r
           \<and> map_of r k = Some v
           \<and> (\<forall>k'. k' \<noteq> k \<longrightarrow> map_of r k' =
                 (case parseAdditionalPermissions (Some pre) of
                    Some rp \<Rightarrow> map_of rp k'
                  | None \<Rightarrow> map_of DEFAULT_PERMISSIONS k'))"
proof -
  let ?line = "k @ '': '' @ v"
  let ?raw = "pre @ [CHR 0x0A] @ ?line"
  let ?A = "parseLines (splitOn CHR 0x0A pre)"
  have nl: "CHR 0x0A \<notin> set ?line"
    using k v by (auto simp: wellFormedKey_def wellFormedValue_def)
  have "splitOn CHR 0x0A ?raw = splitOn CHR 0x0A pre @ [?line]"
    using splitOn_append[of "CHR 0x0A" pre ?line] splitOn_absent[OF nl] by simp
  then have p: "parseLines (splitOn CHR 0x0A ?raw) = AList.update k v ?A"
    using parseLine_wellFormed[OF k v] by (simp add: parseLines_def)
  have r: "parseAdditionalPermissions (Some ?raw)
             = Some (spread DEFAULT_PERMISSIONS (parseLines (splitOn CHR 0x0A ?raw)))"
    unfolding overlay_of[of ?raw] p by (simp add: update_nonempty)
  have 1: "map_of (spread DEFAULT_PERMISSIONS (parseLines (splitOn CHR 0x0A ?raw))) k = Some v"
    unfolding p by (simp add: map_of_overlay distinct_update distinct_parseLines AList.update_conv')
  have 2: "map_of (spread DEFAULT_PERMISSIONS (parseLines (splitOn CHR 0x0A ?raw))) k' =
                 (case parseAdditionalPermissions (Some pre) of
                    Some rp \<Rightarrow> map_of rp k'
                  | None \<Rightarrow> map_of DEFAULT_PERMISSIONS k')" if "k' \<noteq> k" for k'
    unfolding p overlay_of[of pre] using that
    by (simp add: map_of_overlay distinct_update distinct_parseLines AList.update_conv')
  from r 1 2 show ?thesis by blast
qed


lemma joinWith_snoc: "xs \<noteq> [] \<Longrightarrow> joinWith s (xs @ [x]) = joinWith s xs @ s @ x"
  by (induction s xs rule: joinWith.induct) auto

lemma well_formed_lines:
  assumes "kvs \<noteq> []" "\<forall>kv \<in> set kvs. wellFormedKey (fst kv) \<and> wellFormedValue (snd kv)"
  shows "\<exists>r. parseAdditionalPermissions (Some (joinWith [CHR 0x0A] (map permissionLine kvs))) = Some r
           \<and> (\<forall>key. map_of r key =
                 (case map_of (rev kvs) key of
                    Some u \<Rightarrow> Some u
                  | None \<Rightarrow> map_of DEFAULT_PERMISSIONS key))"
  using assms
proof (induction kvs rule: rev_induct)
  case Nil
  then show ?case by simp
next
  case (snoc kv kvs)
  obtain k v where kv: "kv = (k, v)" by (cases kv)
  from snoc.prems kv have k: "wellFormedKey k" and v: "wellFormedValue v" by auto
  show ?case
  proof (cases "kvs = []")
    case True
    have "parseAdditionalPermissions (Some (k @ '': '' @ v))
            = Some (AList.update k v DEFAULT_PERMISSIONS)"
      using k v by (intro parse_single) (simp_all add: wellFormedKey_def wellFormedValue_def)
    then show ?thesis
      by (auto simp: True kv permissionLine_def AList.update_conv')
  next
    case False
    from snoc.IH[OF False] snoc.prems obtain rp where
      rp: "parseAdditionalPermissions (Some (joinWith [CHR 0x0A] (map permissionLine kvs))) = Some rp"
          "\<forall>key. map_of rp key =
                 (case map_of (rev kvs) key of
                    Some u \<Rightarrow> Some u
                  | None \<Rightarrow> map_of DEFAULT_PERMISSIONS key)"
      by auto
    have j: "joinWith [CHR 0x0A] (map permissionLine (kvs @ [kv]))
               = joinWith [CHR 0x0A] (map permissionLine kvs) @ [CHR 0x0A] @ k @ '': '' @ v"
      using False by (simp add: joinWith_snoc kv permissionLine_def)
    from later_line_wins[OF k v, of "joinWith [CHR 0x0A] (map permissionLine kvs)"] rp(1)
    obtain r where
      r: "parseAdditionalPermissions (Some (joinWith [CHR 0x0A] (map permissionLine kvs)
                                             @ [CHR 0x0A] @ k @ '': '' @ v)) = Some r"
         "map_of r k = Some v"
         "\<forall>k'. k' \<noteq> k \<longrightarrow> map_of r k' = map_of rp k'"
      by auto
    show ?thesis
      unfolding j using r rp(2) by (auto simp: kv)
  qed
qed


text \<open>
  Claim C8. \<open>parseAdditionalPermissions\<close> returns no overlay for an unset, empty or
  whitespace-only input; for \<open>actions: read\<close> it returns the defaults
  \<open>contents: write\<close>, \<open>pull_requests: write\<close>, \<open>issues: write\<close> together with
  \<open>actions: read\<close>; for a line \<open>k: v\<close> whose key \<open>k\<close> is one of the defaults and whose
  value \<open>v\<close> is non-empty, trimmed and free of line breaks, the overlay maps \<open>k\<close> to \<open>v\<close>
  and every other key as the defaults do. The same holds after any preceding text: a last
  line \<open>k: v\<close> with a well-formed key (the defaults are well-formed) makes the overlay map
  \<open>k\<close> to \<open>v\<close>, whatever the lines before it said about \<open>k\<close>, and leaves every other key
  as the preceding text alone maps it. For any non-empty list of well-formed lines, the
  overlay maps a key to the value of the last line that names it, and to its default when
  no line names it.
\<close>

theorem parseAdditionalPermissions_spec:
  "parseAdditionalPermissions None = None
   \<and> ((\<forall>c \<in> set ws. isWhitespace c) \<longrightarrow> parseAdditionalPermissions (Some ws) = None)
   \<and> parseAdditionalPermissions (Some ''actions: read'')
       = Some [(''contents'', ''write''), (''pull_requests'', ''write''), (''issues'', ''write''),
               (''actions'', ''read'')]
   \<and> (k \<in> fst ` set DEFAULT_PERMISSIONS \<and> v \<noteq> [] \<and> \<not> isWhitespace (hd v)
        \<and> \<not> isWhitespace (last v) \<and> CHR 0x0A \<notin> set v \<longrightarrow>
       (\<exists>r. parseAdditionalPermissions (Some (k @ '': '' @ v)) = Some r
            \<and> map_of r k = Some v
            \<and> (\<forall>k'. k' \<noteq> k \<longrightarrow> map_of r k' = map_of DEFAULT_PERMISSIONS k')))
   \<and> (\<forall>d \<in> fst ` set DEFAULT_PERMISSIONS. wellFormedKey d)
   \<and> (wellFormedKey key \<and> wellFormedValue val \<longrightarrow>
       (\<exists>r. parseAdditionalPermissions (Some (preceding @ [CHR 0x0A] @ key @ '': '' @ val)) = Some r
            \<and> map_of r key = Some val
            \<and> (\<forall>k'. k' \<noteq> key \<longrightarrow> map_of r k' =
                  (case parseAdditionalPermissions (Some preceding) of
                     Some rp \<Rightarrow> map_of rp k'
                   | None \<Rightarrow> map_of DEFAULT_PERMISSIONS k'))))
   \<and> (kvs \<noteq> [] \<and> (\<forall>kv \<in> set kvs. wellFormedKey (fst kv) \<and> wellFormedValue (snd kv)) \<longrightarrow>
       (\<exists>r. parseAdditionalPermissions (Some (joinWith [CHR 0x0A] (map permissionLine kvs))) = Some r
            \<and> (\<forall>k'. map_of r k' =
                  (case map_of (rev kvs) k' of
                     Some u \<Rightarrow> Some u
                   | None \<Rightarrow> map_of DEFAULT_PERMISSIONS k'))))"
proof -
  have unset: "parseAdditionalPermissions None = None"
    by (simp add: parseAdditionalPermissions_def)
  have blank: "(\<forall>c \<in> set ws. isWhitespace c) \<longrightarrow> parseAdditionalPermissions (Some ws) = None"
    by (simp add: parseAdditionalPermissions_def trim_all_ws)
  have "parseAdditionalPermissions (Some (''actions'' @ '': '' @ ''read''))
          = Some (AList.update ''actions'' ''read'' DEFAULT_PERMISSIONS)"
    by (rule parse_single) (simp_all add: isWhitespace_def)
  then have actions: "parseAdditionalPermissions (Some ''actions: read'')
       = Some [(''contents'', ''write''), (''pull_requests'', ''write''), (''issues'', ''write''),
               (''actions'', ''read'')]"
    by (simp add: DEFAULT_PERMISSIONS_def)
  have override: "\<exists>r. parseAdditionalPermissions (Some (k @ '': '' @ v)) = Some r
            \<and> map_of r k = Some v
            \<and> (\<forall>k'. k' \<noteq> k \<longrightarrow> map_of r k' = map_of DEFAULT_PERMISSIONS k')"
    if k: "k \<in> fst ` set DEFAULT_PERMISSIONS"
      and v: "v \<noteq> []" "\<not> isWhitespace (hd v)" "\<not> isWhitespace (last v)" "CHR 0x0A \<notin> set v"
  proof -
    from k have "k = ''contents'' \<or> k = ''pull_requests'' \<or> k = ''issues''"
      by (auto simp: DEFAULT_PERMISSIONS_def)
    then have "parseAdditionalPermissions (Some (k @ '': '' @ v))
                 = Some (AList.update k v DEFAULT_PERMISSIONS)"
      using v by (intro parse_single) (auto simp: isWhitespace_def)
    then show ?thesis by (simp add: AList.update_conv')
  qed
  have defaults: "\<forall>d \<in> fst ` set DEFAULT_PERMISSIONS. wellFormedKey d"
    using default_keys_wellFormed by blast
  from unset blank actions override defaults
       later_line_wins[of key val preceding] well_formed_lines[of kvs]
  show ?thesis by blast
qed

theorem parseAdditionalPermissions_spec_witness:
  "parseAdditionalPermissions (Some [CHR 0x20, CHR 0x0A, CHR 0x09]) = None
   \<and> (\<exists>r. parseAdditionalPermissions (Some ''contents: read'') = Some r
          \<and> map_of r ''contents'' = Some ''read''
          \<and> map_of r ''pull_requests'' = Some ''write''
          \<and> map_of r ''issues'' = Some ''write''
          \<and> map_of r ''actions'' = None)
   \<and> (\<exists>r. parseAdditionalPermissions
              (Some (''actions: read'' @ [CHR 0x0A] @ ''contents'' @ '': '' @ ''read'')) = Some r
          \<and> map_of r ''contents'' = Some ''read''
          \<and> map_of r ''actions'' = Some ''read''
          \<and> map_of r ''issues'' = Some ''write'')
   \<and> (\<exists>r. parseAdditionalPermissions
              (Some (joinWith [CHR 0x0A]
                       (map permissionLine [(''contents'', ''read''), (''contents'', ''none'')]))) = Some r
          \<and> map_of r ''contents'' = Some ''none''
          \<and> map_of r ''issues'' = Some ''write'')"
proof -
  have w: "\<forall>c \<in> set [CHR 0x20, CHR 0x0A, CHR 0x09]. isWhitespace c"
    by (simp add: isWhitespace_def)
  have h: "''contents'' \<in> fst ` set DEFAULT_PERMISSIONS \<and> ''read'' \<noteq> []
        \<and> \<not> isWhitespace (hd ''read'') \<and> \<not> isWhitespace (last ''read'')
        \<and> CHR 0x0A \<notin> set ''read''"
    by (simp add: DEFAULT_PERMISSIONS_def isWhitespace_def)
  have wf: "wellFormedKey ''contents'' \<and> wellFormedValue ''read''"
    by (simp add: wellFormedKey_def wellFormedValue_def isWhitespace_def)
  have wfs: "[(''contents'', ''read''), (''contents'', ''none'')] \<noteq> []
       \<and> (\<forall>kv \<in> set [(''contents'', ''read''), (''contents'', ''none'')].
             wellFormedKey (fst kv) \<and> wellFormedValue (snd kv))"
    by (simp add: wellFormedKey_def wellFormedValue_def isWhitespace_def)
  note t = parseAdditionalPermissions_spec
             [where ws = "[CHR 0x20, CHR 0x0A, CHR 0x09]" and k = "''contents''" and v = "''read''"
                and key = "''contents''" and val = "''read''" and preceding = "''actions: read''"
                and kvs = "[(''contents'', ''read''), (''contents'', ''none'')]"]
  from t w have a: "parseAdditionalPermissions (Some [CHR 0x20, CHR 0x0A, CHR 0x09]) = None"
    by blast
  from t h obtain r where r: "parseAdditionalPermissions (Some (''contents'' @ '': '' @ ''read'')) = Some r"
      "map_of r ''contents'' = Some ''read''"
      "\<forall>k'. k' \<noteq> ''contents'' \<longrightarrow> map_of r k' = map_of DEFAULT_PERMISSIONS k'"
    by blast
  from r(3) have r': "map_of r ''pull_requests'' = Some ''write''"
      "map_of r ''issues'' = Some ''write''" "map_of r ''actions'' = None"
    by (simp_all add: DEFAULT_PERMISSIONS_def)
  from t have ar: "parseAdditionalPermissions (Some ''actions: read'')
       = Some [(''contents'', ''write''), (''pull_requests'', ''write''), (''issues'', ''write''),
               (''actions'', ''read'')]"
    by blast
  from t wf obtain q where q:
      "parseAdditionalPermissions
         (Some (''actions: read'' @ [CHR 0x0A] @ ''contents'' @ '': '' @ ''read'')) = Some q"
      "map_of q ''contents'' = Some ''read''"
      "\<forall>k'. k' \<noteq> ''contents'' \<longrightarrow> map_of q k' =
                  (case parseAdditionalPermissions (Some ''actions: read'') of
                     Some rp \<Rightarrow> map_of rp k'
                   | None \<Rightarrow> map_of DEFAULT_PERMISSIONS k')"
    by blast
  from q(3) have q': "map_of q ''actions'' = Some ''read''" "map_of q ''issues'' = Some ''write''"
    unfolding ar by simp_all
  from t wfs obtain m where m:
      "parseAdditionalPermissions
         (Some (joinWith [CHR 0x0A]
                  (map permissionLine [(''contents'', ''read''), (''contents'', ''none'')]))) = Some m"
      "\<forall>k'. map_of m k' =
                  (case map_of (rev [(''contents'', ''read''), (''contents'', ''none'')]) k' of
                     Some u \<Rightarrow> Some u
                   | None \<Rightarrow> map_of DEFAULT_PERMISSIONS k')"
    by blast
  from m(2) have m': "map_of m ''contents'' = Some ''none''" "map_of m ''issues'' = Some ''write''"
    by (simp_all add: DEFAULT_PERMISSIONS_def)
  have 1: "\<exists>r. parseAdditionalPermissions (Some ''contents: read'') = Some r
          \<and> map_of r ''contents'' = Some ''read''
          \<and> map_of r ''pull_requests'' = Some ''write''
          \<and> map_of r ''issues'' = Some ''write''
          \<and> map_of r ''actions'' = None"
    using r(1,2) r' by (intro exI[of _ r]) simp
  have 2: "\<exists>r. parseAdditionalPermissions
              (Some (''actions: read'' @ [CHR 0x0A] @ ''contents'' @ '': '' @ ''read'')) = Some r
          \<and> map_of r ''contents'' = Some ''read''
          \<and> map_of r ''actions'' = Some ''read''
          \<and> map_of r ''issues'' = Some ''write''"
    using q(1,2) q' by (intro exI[of _ q]) (simp only: simp_thms)
  have 3: "\<exists>r. parseAdditionalPermissions
              (Some (joinWith [CHR 0x0A]
                       (map permissionLine [(''contents'', ''read''), (''contents'', ''none'')]))) = Some r
          \<and> map_of r ''contents'' = Some ''none''
          \<and> map_of r ''issues'' = Some ''write''"
    using m(1) m' by (intro exI[of _ m]) (simp only: simp_thms)
  from a 1 2 3 show ?thesis by (simp only: simp_thms)
qed

section \<open>Path validation: properties\<close>


lemma not_startsWith_sibling:
  assumes "tail \<noteq> []" "hd tail \<noteq> CHR ''/''"
  shows "\<not> startsWith (root @ tail) (root @ sep)"
proof
  assume "startsWith (root @ tail) (root @ sep)"
  then obtain r where "root @ tail = (root @ sep) @ r" unfolding startsWith_iff ..
  then have "tail = CHR ''/'' # r" by (simp add: sep_def)
  with assms show False by simp
qed

text \<open>
  Claim C2. When the lexically resolved candidate exists (its \<open>realpath\<close> is
  \<open>resolvedPath\<close>), validation succeeds exactly when the root resolves and \<open>resolvedPath\<close>
  equals the resolved root or is the resolved root followed by the separator and more;
  a successful result is \<open>resolvedPath\<close>; and a resolved path that extends the resolved
  root by anything not starting with the separator (a sibling such as the root's name plus
  \<open>-evil\<close>) is rejected with the error "resolves outside the repository root".
\<close>

theorem validatePathWithinRepo_existing:
  assumes "realpath (resolve cwd [repoRoot, filePath]) = Some resolvedPath"
  shows "((\<exists>p. validatePathWithinRepo realpath cwd filePath repoRoot = Inr p)
            \<longleftrightarrow> (\<exists>resolvedRoot. realpath repoRoot = Some resolvedRoot
                   \<and> (resolvedPath = resolvedRoot
                        \<or> (\<exists>rest. resolvedPath = resolvedRoot @ sep @ rest))))
         \<and> (\<forall>p. validatePathWithinRepo realpath cwd filePath repoRoot = Inr p
                  \<longrightarrow> p = resolvedPath)
         \<and> (\<forall>resolvedRoot tail.
               realpath repoRoot = Some resolvedRoot \<and> resolvedPath = resolvedRoot @ tail
               \<and> tail \<noteq> [] \<and> hd tail \<noteq> CHR ''/''
               \<longrightarrow> validatePathWithinRepo realpath cwd filePath repoRoot
                     = Inl (pathEscapesRoot filePath))"
proof (cases "realpath repoRoot")
  case None
  then show ?thesis by (simp add: validatePathWithinRepo_def)
next
  case (Some resolvedRoot)
  have v: "validatePathWithinRepo realpath cwd filePath repoRoot =
             (if resolvedPath \<noteq> resolvedRoot \<and> \<not> startsWith resolvedPath (resolvedRoot @ sep)
              then Inl (pathEscapesRoot filePath) else Inr resolvedPath)"
    using assms Some by (simp add: validatePathWithinRepo_def)
  have s: "startsWith resolvedPath (resolvedRoot @ sep)
             \<longleftrightarrow> (\<exists>rest. resolvedPath = resolvedRoot @ sep @ rest)"
    by (simp add: startsWith_iff)
  have a: "(\<exists>p. validatePathWithinRepo realpath cwd filePath repoRoot = Inr p)
            \<longleftrightarrow> (\<exists>resolvedRoot. realpath repoRoot = Some resolvedRoot
                   \<and> (resolvedPath = resolvedRoot
                        \<or> (\<exists>rest. resolvedPath = resolvedRoot @ sep @ rest)))"
    using s by (auto simp: v Some)
  have b: "\<forall>p. validatePathWithinRepo realpath cwd filePath repoRoot = Inr p
                  \<longrightarrow> p = resolvedPath"
    unfolding v by auto
  have c: "validatePathWithinRepo realpath cwd filePath repoRoot = Inl (pathEscapesRoot filePath)"
    if "realpath repoRoot = Some root'" "resolvedPath = root' @ tail"
       "tail \<noteq> []" "hd tail \<noteq> CHR ''/''" for root' tail
  proof -
    from that(1) Some have r: "root' = resolvedRoot" by simp
    show ?thesis unfolding v using that(2,3) not_startsWith_sibling[OF that(3,4), of resolvedRoot]
      by (simp add: r)
  qed
  from a b c show ?thesis by blast
qed

lemma example_fs_simps:
  "example_fs ''/repo'' = Some ''/repo''"
  "example_fs ''/repo/file.txt'' = Some ''/repo/file.txt''"
  "example_fs ''/repo/src'' = Some ''/repo/src''"
  "example_fs ''/repo/link'' = Some ''/etc''"
  "example_fs ''/repo-evil/file.txt'' = Some ''/repo-evil/file.txt''"
  "example_fs ''/repo/new.txt'' = None"
  "example_fs ''/repo/newdir/new.txt'' = None"
  "example_fs ''/repo/newdir'' = None"
  by (simp_all add: example_fs_def)

lemma resolve_examples:
  "resolve ''/work'' [''/repo'', ''file.txt''] = ''/repo/file.txt''"
  "resolve ''/work'' [''/repo'', ''../repo-evil/file.txt''] = ''/repo-evil/file.txt''"
  "resolve ''/work'' [''/repo'', ''new.txt''] = ''/repo/new.txt''"
  "resolve ''/work'' [''/repo/new.txt'', ''..''] = ''/repo''"
  "resolve ''/work'' [''/repo'', ''newdir/new.txt''] = ''/repo/newdir/new.txt''"
  "resolve ''/work'' [''/repo/newdir/new.txt'', ''..''] = ''/repo/newdir''"
  by (simp_all add: resolve_def normalizeStep_def)

theorem validatePathWithinRepo_existing_witness:
  "validatePathWithinRepo example_fs ''/work'' ''file.txt'' ''/repo'' = Inr ''/repo/file.txt''
   \<and> validatePathWithinRepo example_fs ''/work'' ''../repo-evil/file.txt'' ''/repo''
       = Inl (pathEscapesRoot ''../repo-evil/file.txt'')"
proof -
  have "\<exists>p. validatePathWithinRepo example_fs ''/work'' ''file.txt'' ''/repo'' = Inr p"
    using validatePathWithinRepo_existing
            [of example_fs "''/work''" "''/repo''" "''file.txt''" "''/repo/file.txt''"]
    by (simp add: example_fs_simps resolve_examples sep_def)
  then have a: "validatePathWithinRepo example_fs ''/work'' ''file.txt'' ''/repo'' = Inr ''/repo/file.txt''"
    using validatePathWithinRepo_existing
            [of example_fs "''/work''" "''/repo''" "''file.txt''" "''/repo/file.txt''"]
    by (auto simp add: example_fs_simps resolve_examples)
  have h: "example_fs ''/repo'' = Some ''/repo'' \<and> ''/repo-evil/file.txt'' = ''/repo'' @ ''-evil/file.txt''
        \<and> ''-evil/file.txt'' \<noteq> [] \<and> hd ''-evil/file.txt'' \<noteq> CHR ''/''"
    by (simp add: example_fs_simps)
  have e: "example_fs (resolve ''/work'' [''/repo'', ''../repo-evil/file.txt'']) = Some ''/repo-evil/file.txt''"
    by (simp add: example_fs_simps resolve_examples)
  have b: "validatePathWithinRepo example_fs ''/work'' ''../repo-evil/file.txt'' ''/repo''
       = Inl (pathEscapesRoot ''../repo-evil/file.txt'')"
    using validatePathWithinRepo_existing
            [of example_fs "''/work''" "''/repo''" "''../repo-evil/file.txt''"
                "''/repo-evil/file.txt''", OF e] h
    by blast
  from a b show ?thesis by simp
qed

text \<open>
  Claim C7. When the root resolves, the lexically resolved candidate does not exist, and
  its parent directory resolves to the resolved root or to a path below it, validation
  succeeds and returns the lexically resolved candidate itself.
\<close>

theorem validatePathWithinRepo_new_file:
  assumes "realpath repoRoot = Some resolvedRoot"
      and "realpath (resolve cwd [repoRoot, filePath]) = None"
      and "realpath (resolve cwd [resolve cwd [repoRoot, filePath], ''..'']) = Some resolvedParent"
      and "resolvedParent = resolvedRoot \<or> (\<exists>rest. resolvedParent = resolvedRoot @ sep @ rest)"
  shows "validatePathWithinRepo realpath cwd filePath repoRoot
           = Inr (resolve cwd [repoRoot, filePath])"
proof -
  from assms(4) have "resolvedParent = resolvedRoot \<or> startsWith resolvedParent (resolvedRoot @ sep)"
    by (simp add: startsWith_iff)
  with assms(1,2,3) show ?thesis
    by (auto simp add: validatePathWithinRepo_def Let_def)
qed

theorem validatePathWithinRepo_new_file_witness:
  "example_fs ''/repo'' = Some ''/repo''
   \<and> example_fs (resolve ''/work'' [''/repo'', ''new.txt'']) = None
   \<and> example_fs (resolve ''/work'' [resolve ''/work'' [''/repo'', ''new.txt''], ''..'']) = Some ''/repo''
   \<and> validatePathWithinRepo example_fs ''/work'' ''new.txt'' ''/repo'' = Inr ''/repo/new.txt''"
  using validatePathWithinRepo_new_file
          [of example_fs "''/repo''" "''/repo''" "''/work''" "''new.txt''" "''/repo''"]
  by (simp add: example_fs_simps resolve_examples)

text \<open>
  Claim C10. When the root resolves but neither the lexically resolved candidate nor its
  parent directory exists, validation fails with the error "resolves outside the
  repository root", also for a candidate that lies lexically inside the root.
\<close>

theorem validatePathWithinRepo_missing_parent:
  assumes "realpath repoRoot = Some resolvedRoot"
      and "realpath (resolve cwd [repoRoot, filePath]) = None"
      and "realpath (resolve cwd [resolve cwd [repoRoot, filePath], ''..'']) = None"
  shows "validatePathWithinRepo realpath cwd filePath repoRoot = Inl (pathEscapesRoot filePath)
         \<and> message (pathEscapesRoot filePath)
             = ''Path '' @ [CHR 0x27] @ filePath @ [CHR 0x27] @ '' resolves outside the repository root''"
  using assms by (simp add: validatePathWithinRepo_def Let_def pathEscapesRoot_def)

theorem validatePathWithinRepo_missing_parent_witness:
  "example_fs ''/repo'' = Some ''/repo''
   \<and> resolve ''/work'' [''/repo'', ''newdir/new.txt''] = ''/repo'' @ sep @ ''newdir/new.txt''
   \<and> example_fs (resolve ''/work'' [''/repo'', ''newdir/new.txt'']) = None
   \<and> example_fs (resolve ''/work'' [resolve ''/work'' [''/repo'', ''newdir/new.txt''], ''..'']) = None
   \<and> validatePathWithinRepo example_fs ''/work'' ''newdir/new.txt'' ''/repo''
       = Inl (pathEscapesRoot ''newdir/new.txt'')"
  using validatePathWithinRepo_missing_parent
          [of example_fs "''/repo''" "''/repo''" "''/work''" "''newdir/new.txt''"]
  by (simp add: example_fs_simps resolve_examples sep_def)




section \<open>The orchestrator: properties\<close>

lemmas prog_defs = bind_def await_def assign_def emit_def skip_def returnNow_def throw_def
  tryCatch_def setOutput_def acceptingSink_def

lemma outputsOf_simps:
  "outputsOf n [] = []"
  "outputsOf n (SetOutput m v # es) = (if m = n then v # outputsOf n es else outputsOf n es)"
  "outputsOf n (SetFailed msg # es) = outputsOf n es"
  "outputsOf n (SetEnv k x # es) = outputsOf n es"
  "outputsOf n (UpdateCommentLink p # es) = outputsOf n es"
  "outputsOf n (ConsoleError l e # es) = outputsOf n es"
  "outputsOf n (ConsoleErrorMessage l # es) = outputsOf n es"
  "outputsOf n (es @ fs) = outputsOf n es @ outputsOf n fs"
  by (auto simp: outputsOf_def)

lemma failures_simps:
  "failures [] = []"
  "failures (SetOutput m v # es) = failures es"
  "failures (SetFailed msg # es) = msg # failures es"
  "failures (SetEnv k x # es) = failures es"
  "failures (UpdateCommentLink p # es) = failures es"
  "failures (ConsoleError l e # es) = failures es"
  "failures (ConsoleErrorMessage l # es) = failures es"
  "failures (es @ fs) = failures es @ failures fs"
  by (auto simp: failures_def)

lemma updateTrackingComment_result:
  "updateTrackingComment w s = (Normal (), s\<lparr>effects := effects s @ commentEffects w s\<rparr>)"
  by (simp add: updateTrackingComment_def commentEffects_def prog_defs split: option.splits sum.splits)

lemma writeReport_result:
  "writeReport w s = (Normal (), s\<lparr>effects := effects s @ reportEffects w s\<rparr>)"
  by (simp add: writeReport_def reportEffects_def writeStepSummary_def prog_defs
           split: option.splits sum.splits)

lemma updateParams_effects:
  "updateParams (s\<lparr>effects := es\<rparr>) = updateParams s"
  by (auto simp add: updateParams_def split: option.splits)

lemma commentEffects_effects:
  "commentEffects w (s\<lparr>effects := es\<rparr>) = commentEffects w s"
  by (simp add: commentEffects_def updateParams_effects)

lemma reportEffects_effects:
  "reportEffects w (s\<lparr>effects := es\<rparr>) = reportEffects w s"
  by (simp add: reportEffects_def)

lemma reportEffects_none: "executionFile s = None \<Longrightarrow> reportEffects w s = []"
  by (simp add: reportEffects_def)

text \<open>The cleanup block on any sink: the first output that the sink refuses is thrown.\<close>

lemma finallyBlock_sink:
  "finallyBlock sink w s =
     (case sink ''branch_name'' of
        Inl e \<Rightarrow> (Throw e, s\<lparr>effects := effects s @ commentEffects w s @ reportEffects w s\<rparr>)
      | Inr u \<Rightarrow>
          (case sink ''github_token'' of
             Inl e \<Rightarrow> (Throw e, s\<lparr>effects := effects s @ commentEffects w s @ reportEffects w s
                                        @ [SetOutput ''branch_name'' (claudeBranch s)]\<rparr>)
           | Inr u \<Rightarrow> (Normal (), s\<lparr>effects := effects s @ commentEffects w s @ reportEffects w s
                                        @ [SetOutput ''branch_name'' (claudeBranch s),
                                           SetOutput ''github_token'' (githubToken s)]\<rparr>)))"
  by (simp add: finallyBlock_def setRemainingOutputs_def bind_def emit_def await_def setOutput_def
                updateTrackingComment_result writeReport_result reportEffects_effects
           split: sum.splits)

lemma finallyBlock_result:
  "finallyBlock acceptingSink w s =
     (Normal (), s\<lparr>effects := effects s @ commentEffects w s @ reportEffects w s @
                        [SetOutput ''branch_name'' (claudeBranch s),
                         SetOutput ''github_token'' (githubToken s)]\<rparr>)"
  by (simp add: finallyBlock_sink acceptingSink_def)

lemma commentEffects_quiet:
  "failures (commentEffects w s) = []" "outputsOf n (commentEffects w s) = []"
  by (simp_all add: commentEffects_def failures_simps outputsOf_simps split: option.splits sum.splits)

lemma reportEffects_quiet:
  "failures (reportEffects w s) = []" "outputsOf n (reportEffects w s) = []"
  by (simp_all add: reportEffects_def failures_simps outputsOf_simps split: option.splits sum.splits)

lemma authenticate_cases:
  "authenticate acceptingSink w s =
     (case setupGitHubToken (process_env w) (auth w) of
        Inr t \<Rightarrow> (Normal (), s\<lparr>githubToken := Some t\<rparr>)
      | Inl (WorkflowValidationSkipError m) \<Rightarrow>
          (Return, s\<lparr>effects := effects s @ [SetOutput ''skipped_due_to_workflow_validation_mismatch'' (Some ''true'')]\<rparr>)
      | Inl (Error m) \<Rightarrow> (Throw (Error m), s))"
  by (simp add: authenticate_def prog_defs split: sum.splits exn.splits)

lemmas preparePhase_unfold = preparePhase_def preparePhase_with_def
lemmas executePhase_unfold = executePhase_def executePhase_with_def

lemma preparePhase_frame:
  assumes "preparePhase w s0 = (c, s)"
  shows "prepareSuccess s = prepareSuccess s0 \<and> prepareError s = prepareError s0
         \<and> executionFile s = executionFile s0
         \<and> failures (effects s) = failures (effects s0)
         \<and> outputsOf ''branch_name'' (effects s) = outputsOf ''branch_name'' (effects s0)"
  using assms unfolding preparePhase_unfold
  by (auto simp add: prog_defs authenticate_cases failures_simps outputsOf_simps
           split: sum.splits exn.splits if_splits)

lemma preparePhase_abrupt:
  assumes "preparePhase w s0 = (c, s)" "\<forall>r. c \<noteq> Normal r"
  shows "prepareCompleted s = prepareCompleted s0 \<and> commentId s = commentId s0
         \<and> claudeBranch s = claudeBranch s0"
  using assms unfolding preparePhase_unfold
  by (auto simp add: prog_defs authenticate_cases split: sum.splits exn.splits if_splits)

lemma preparePhase_normal:
  assumes "preparePhase w s0 = (Normal r, s)"
  shows "prepareCompleted s"
  using assms unfolding preparePhase_unfold
  by (auto simp add: prog_defs authenticate_cases split: sum.splits exn.splits if_splits)

lemma executePhase_frame:
  assumes "executePhase w r s0 = (c, s)"
  shows "prepareSuccess s = prepareSuccess s0 \<and> prepareError s = prepareError s0
         \<and> prepareCompleted s = prepareCompleted s0
         \<and> githubToken s = githubToken s0 \<and> commentId s = commentId s0
         \<and> claudeBranch s = claudeBranch s0
         \<and> failures (effects s) = failures (effects s0)
         \<and> outputsOf ''branch_name'' (effects s) = outputsOf ''branch_name'' (effects s0)
         \<and> outputsOf ''github_token'' (effects s) = outputsOf ''github_token'' (effects s0)"
  using assms unfolding executePhase_unfold
  by (auto simp add: prog_defs failures_simps outputsOf_simps
           split: sum.splits if_splits)

lemma executePhase_throw_file:
  assumes "executePhase w r s0 = (Throw e, s)"
  shows "executionFile s = executionFile s0"
  using assms unfolding executePhase_unfold
  by (auto simp add: prog_defs split: sum.splits if_splits)


lemma catchBlock_result:
  "catchBlock e s =
     (Normal (),
      (if \<not> prepareCompleted s
       then s\<lparr>prepareSuccess := False, prepareError := Some (message e)\<rparr>
       else s)\<lparr>effects := effects s @ [SetFailed (''Action failed with error: '' @ message e)]\<rparr>)"
  by (simp add: catchBlock_def prog_defs Let_def)

lemma tryBlock_cases:
  "tryBlock w s0 =
     (case preparePhase w s0 of
        (Normal r, s1) \<Rightarrow> executePhase w r s1
      | (Return, s1) \<Rightarrow> (Return, s1)
      | (Throw e, s1) \<Rightarrow> (Throw e, s1))"
  by (simp add: tryBlock_def tryBlock_with_def preparePhase_def executePhase_def bind_def
           split: prod.splits completion.splits)

lemma tryBlock_frame:
  assumes "tryBlock w s0 = (c, s)"
  shows "prepareSuccess s = prepareSuccess s0 \<and> prepareError s = prepareError s0
         \<and> failures (effects s) = failures (effects s0)
         \<and> outputsOf ''branch_name'' (effects s) = outputsOf ''branch_name'' (effects s0)"
proof (cases "preparePhase w s0")
  case (Pair c1 s1)
  note f = preparePhase_frame[OF Pair]
  show ?thesis
  proof (cases c1)
    case (Normal r)
    with assms Pair have "executePhase w r s1 = (c, s)" by (simp add: tryBlock_cases)
    from executePhase_frame[OF this] f show ?thesis by simp
  next
    case Return
    with assms Pair f show ?thesis by (auto simp: tryBlock_cases)
  next
    case (Throw e)
    with assms Pair f show ?thesis by (auto simp: tryBlock_cases)
  qed
qed

lemma tryBlock_throw_file:
  assumes "tryBlock w s0 = (Throw e, s)"
  shows "executionFile s = executionFile s0"
proof (cases "preparePhase w s0")
  case (Pair c1 s1)
  note f = preparePhase_frame[OF Pair]
  show ?thesis
  proof (cases c1)
    case (Normal r)
    with assms Pair have "executePhase w r s1 = (Throw e, s)" by (simp add: tryBlock_cases)
    from executePhase_throw_file[OF this] f show ?thesis by simp
  next
    case Return
    with assms Pair f show ?thesis by (auto simp: tryBlock_cases)
  next
    case (Throw e)
    with assms Pair f show ?thesis by (auto simp: tryBlock_cases)
  qed
qed

lemma init_state_simps:
  "prepareSuccess init_state" "prepareError init_state = None" "\<not> prepareCompleted init_state"
  "effects init_state = []" "githubToken init_state = None" "commentId init_state = None"
  "claudeBranch init_state = None" "executionFile init_state = None"
  by (simp_all add: init_state_def)

lemma run_unfold:
  "run w = tryFinally (tryCatch (tryBlock w) catchBlock) (finallyBlock acceptingSink w) init_state"
  by (simp add: run_def run_with_def tryBlock_def)

lemma run_throw:
  assumes "tryBlock w init_state = (Throw e, s)"
  shows "run w =
     (Normal (),
      (if \<not> prepareCompleted s
       then s\<lparr>prepareSuccess := False, prepareError := Some (message e)\<rparr>
       else s)
      \<lparr>effects := effects s @ [SetFailed (''Action failed with error: '' @ message e)]
          @ commentEffects w (if \<not> prepareCompleted s
                              then s\<lparr>prepareSuccess := False, prepareError := Some (message e)\<rparr>
                              else s)
          @ [SetOutput ''branch_name'' (claudeBranch s),
             SetOutput ''github_token'' (githubToken s)]\<rparr>)"
proof -
  from tryBlock_throw_file[OF assms] have "executionFile s = None"
    by (simp add: init_state_simps)
  then have "reportEffects w (if \<not> prepareCompleted s
                              then s\<lparr>prepareSuccess := False, prepareError := Some (message e)\<rparr>
                              else s) = []"
    by (simp add: reportEffects_def)
  with assms show ?thesis
    by (simp add: run_unfold tryFinally_def tryCatch_def catchBlock_result finallyBlock_result
                  commentEffects_effects reportEffects_effects)
qed

lemma run_no_throw:
  assumes "tryBlock w init_state = (c, s)" "\<forall>e. c \<noteq> Throw e"
  shows "run w =
     (c, s\<lparr>effects := effects s @ commentEffects w s @ reportEffects w s
              @ [SetOutput ''branch_name'' (claudeBranch s),
                 SetOutput ''github_token'' (githubToken s)]\<rparr>)"
  using assms
  by (cases c) (simp_all add: run_unfold tryFinally_def tryCatch_def finallyBlock_result)

text \<open>
  Claim C3. An error thrown by the preparation phase is thrown while \<open>prepareCompleted\<close> is
  still false, and the handler then sets \<open>prepareSuccess\<close> to false and \<open>prepareError\<close> to
  the message; an error thrown by the phases after it is thrown with \<open>prepareCompleted\<close>
  true, and \<open>prepareSuccess\<close> stays true and \<open>prepareError\<close> unset. Whatever throws, the
  attribution is a function of the flag alone, the failure is recorded once, and the
  effects of the cleanup block follow once: the output \<open>branch_name\<close> is set exactly once.
\<close>

theorem failure_attribution:
  "(preparePhase w init_state = (Throw e, s) \<longrightarrow>
      \<not> prepareCompleted s \<and> \<not> prepareSuccess (snd (run w))
      \<and> prepareError (snd (run w)) = Some (message e))
   \<and> (preparePhase w init_state = (Normal r, s1) \<and> executePhase w r s1 = (Throw e, s) \<longrightarrow>
      prepareCompleted s \<and> prepareSuccess (snd (run w)) \<and> prepareError (snd (run w)) = None)
   \<and> (tryBlock w init_state = (Throw e, s) \<longrightarrow>
      prepareSuccess (snd (run w)) = prepareCompleted s
      \<and> prepareError (snd (run w)) = (if prepareCompleted s then None else Some (message e))
      \<and> fst (run w) = Normal ()
      \<and> failures (effects (snd (run w))) = [''Action failed with error: '' @ message e]
      \<and> effects (snd (run w)) =
          effects s @ [SetFailed (''Action failed with error: '' @ message e)]
          @ commentEffects w (snd (run w))
          @ [SetOutput ''branch_name'' (claudeBranch (snd (run w))),
             SetOutput ''github_token'' (githubToken (snd (run w)))]
      \<and> length (outputsOf ''branch_name'' (effects (snd (run w)))) = 1)"
proof -
  have general: "prepareSuccess (snd (run w)) = prepareCompleted s
      \<and> prepareError (snd (run w)) = (if prepareCompleted s then None else Some (message e))
      \<and> fst (run w) = Normal ()
      \<and> failures (effects (snd (run w))) = [''Action failed with error: '' @ message e]
      \<and> effects (snd (run w)) =
          effects s @ [SetFailed (''Action failed with error: '' @ message e)]
          @ commentEffects w (snd (run w))
          @ [SetOutput ''branch_name'' (claudeBranch (snd (run w))),
             SetOutput ''github_token'' (githubToken (snd (run w)))]
      \<and> length (outputsOf ''branch_name'' (effects (snd (run w)))) = 1"
    if t: "tryBlock w init_state = (Throw e, s)" for s
  proof -
    from tryBlock_frame[OF t]
    have f: "prepareSuccess s" "prepareError s = None" "failures (effects s) = []"
        "outputsOf ''branch_name'' (effects s) = []"
      by (simp_all add: init_state_simps failures_simps outputsOf_simps)
    show ?thesis
      unfolding run_throw[OF t] using f
      by (simp add: failures_simps outputsOf_simps commentEffects_quiet commentEffects_effects)
  qed
  have before: "\<not> prepareCompleted s \<and> \<not> prepareSuccess (snd (run w))
      \<and> prepareError (snd (run w)) = Some (message e)"
    if p: "preparePhase w init_state = (Throw e, s)"
  proof -
    from p have t: "tryBlock w init_state = (Throw e, s)" by (simp add: tryBlock_cases)
    from preparePhase_abrupt[OF p] have "\<not> prepareCompleted s" by (simp add: init_state_simps)
    with general[OF t] show ?thesis by simp
  qed
  have after: "prepareCompleted s \<and> prepareSuccess (snd (run w)) \<and> prepareError (snd (run w)) = None"
    if p: "preparePhase w init_state = (Normal r, s1)" and x: "executePhase w r s1 = (Throw e, s)"
  proof -
    from p x have t: "tryBlock w init_state = (Throw e, s)" by (simp add: tryBlock_cases)
    from preparePhase_normal[OF p] executePhase_frame[OF x] have "prepareCompleted s" by simp
    with general[OF t] show ?thesis by simp
  qed
  from general before after show ?thesis by blast
qed

theorem failure_attribution_witness:
  "\<not> prepareSuccess (snd (run prepare_failure_world))
   \<and> prepareError (snd (run prepare_failure_world)) = Some ''boom''
   \<and> prepareSuccess (snd (run execute_failure_world))
   \<and> prepareError (snd (run execute_failure_world)) = None
   \<and> failures (effects (snd (run prepare_failure_world))) = [''Action failed with error: boom'']
   \<and> failures (effects (snd (run execute_failure_world))) = [''Action failed with error: boom'']
   \<and> length (outputsOf ''branch_name'' (effects (snd (run prepare_failure_world)))) = 1
   \<and> length (outputsOf ''branch_name'' (effects (snd (run execute_failure_world)))) = 1"
proof -
  let ?r = "\<lparr>result_commentId = Some 42,
             result_branchInfo = \<lparr>info_baseBranch = ''main'',
                                  info_claudeBranch = Some ''claude/issue-7'',
                                  info_currentBranch = ''claude/issue-7''\<rparr>,
             result_mcpConfig = ''{}''\<rparr>"
  have "fst (preparePhase prepare_failure_world init_state) = Throw (Error ''boom'')"
    by code_simp
  then obtain sp where p: "preparePhase prepare_failure_world init_state = (Throw (Error ''boom''), sp)"
    by (metis prod.collapse)
  then have pt: "tryBlock prepare_failure_world init_state = (Throw (Error ''boom''), sp)"
    by (simp add: tryBlock_cases)
  have "fst (preparePhase execute_failure_world init_state) = Normal ?r"
    by code_simp
  then obtain s1 where n: "preparePhase execute_failure_world init_state = (Normal ?r, s1)"
    by (metis prod.collapse)
  have "fst (tryBlock execute_failure_world init_state) = Throw (Error ''boom'')"
    by code_simp
  then obtain sx where xt: "tryBlock execute_failure_world init_state = (Throw (Error ''boom''), sx)"
    by (metis prod.collapse)
  with n have x: "executePhase execute_failure_world ?r s1 = (Throw (Error ''boom''), sx)"
    by (simp add: tryBlock_cases)
  note fp = failure_attribution [of prepare_failure_world "Error ''boom''" sp]
  from fp p have a1: "\<not> prepareSuccess (snd (run prepare_failure_world))
      \<and> prepareError (snd (run prepare_failure_world)) = Some (message (Error ''boom''))"
    by blast
  from fp pt have a2: "failures (effects (snd (run prepare_failure_world)))
        = [''Action failed with error: '' @ message (Error ''boom'')]
      \<and> length (outputsOf ''branch_name'' (effects (snd (run prepare_failure_world)))) = 1"
    by blast
  note fx = failure_attribution [of execute_failure_world "Error ''boom''" sx ?r s1]
  from fx n x have b1: "prepareSuccess (snd (run execute_failure_world))
      \<and> prepareError (snd (run execute_failure_world)) = None"
    by blast
  from fx xt have b2: "failures (effects (snd (run execute_failure_world)))
        = [''Action failed with error: '' @ message (Error ''boom'')]
      \<and> length (outputsOf ''branch_name'' (effects (snd (run execute_failure_world)))) = 1"
    by blast
  from a1 a2 b1 b2 show ?thesis by simp
qed

lemma tryBlock_cleanup: "tryBlock (w\<lparr>cleanup := cw\<rparr>) = tryBlock w"
  by (simp add: tryBlock_def tryBlock_with_def preparePhase_with_def executePhase_with_def
                authenticate_def cong: if_cong)

lemma run_shape:
  "\<exists>c s. (\<forall>e. c \<noteq> Throw e)
         \<and> run w = (c, s\<lparr>effects := effects s @ commentEffects w s @ reportEffects w s
                              @ [SetOutput ''branch_name'' (claudeBranch s),
                                 SetOutput ''github_token'' (githubToken s)]\<rparr>)
         \<and> outputsOf ''branch_name'' (effects s) = []
         \<and> (\<forall>cw. run (w\<lparr>cleanup := cw\<rparr>) =
                 (c, s\<lparr>effects := effects s @ commentEffects (w\<lparr>cleanup := cw\<rparr>) s
                              @ reportEffects (w\<lparr>cleanup := cw\<rparr>) s
                              @ [SetOutput ''branch_name'' (claudeBranch s),
                                 SetOutput ''github_token'' (githubToken s)]\<rparr>))"
proof (cases "tryBlock w init_state")
  case (Pair c s)
  note fr = tryBlock_frame[OF Pair]
  show ?thesis
  proof (cases "\<exists>e. c = Throw e")
    case True
    then obtain e where c: "c = Throw e" ..
    let ?h = "(if \<not> prepareCompleted s
               then s\<lparr>prepareSuccess := False, prepareError := Some (message e)\<rparr>
               else s)\<lparr>effects := effects s @ [SetFailed (''Action failed with error: '' @ message e)]\<rparr>"
    have t: "tryBlock w init_state = (Throw e, s)" using Pair c by simp
    have t': "tryBlock (w\<lparr>cleanup := cw\<rparr>) init_state = (Throw e, s)" for cw
      using t by (simp add: tryBlock_cleanup)
    from tryBlock_throw_file[OF t] have "executionFile s = None" by (simp add: init_state_simps)
    then have rn: "reportEffects w' ?h = []" for w'
      by (simp add: reportEffects_def)
    have 1: "run w = (Normal (), ?h\<lparr>effects := effects ?h @ commentEffects w ?h @ reportEffects w ?h
                              @ [SetOutput ''branch_name'' (claudeBranch ?h),
                                 SetOutput ''github_token'' (githubToken ?h)]\<rparr>)"
      unfolding run_throw[OF t] rn by (simp add: commentEffects_effects)
    have 2: "run (w\<lparr>cleanup := cw\<rparr>) = (Normal (), ?h\<lparr>effects := effects ?h
                              @ commentEffects (w\<lparr>cleanup := cw\<rparr>) ?h
                              @ reportEffects (w\<lparr>cleanup := cw\<rparr>) ?h
                              @ [SetOutput ''branch_name'' (claudeBranch ?h),
                                 SetOutput ''github_token'' (githubToken ?h)]\<rparr>)" for cw
      unfolding run_throw[OF t'] rn by (simp add: commentEffects_effects)
    have 3: "outputsOf ''branch_name'' (effects ?h) = []"
      using fr by (simp add: outputsOf_simps init_state_simps)
    show ?thesis
      apply (rule exI[of _ "Normal ()"], rule exI[of _ ?h])
      using 1 2 3 by blast
  next
    case False
    then have nt: "\<forall>e. c \<noteq> Throw e" by simp
    have t': "tryBlock (w\<lparr>cleanup := cw\<rparr>) init_state = (c, s)" for cw
      using Pair by (simp add: tryBlock_cleanup)
    have 3: "outputsOf ''branch_name'' (effects s) = []"
      using fr by (simp add: outputsOf_simps init_state_simps)
    show ?thesis
      apply (rule exI[of _ c], rule exI[of _ s])
      using nt run_no_throw[OF Pair nt] run_no_throw[OF t' nt] 3
      by blast
  qed
qed







lemma retryFrom_skip:
  assumes "k \<le> budget"
      and "\<forall>i<k. \<exists>msg. operation (a + i) = Inl (Error msg)"
      and "operation (a + k) = Inl (WorkflowValidationSkipError m)"
  shows "retryFrom operation budget a = Inl (WorkflowValidationSkipError m)"
  using assms
proof (induction budget arbitrary: a k)
  case 0
  then show ?case by simp
next
  case (Suc budget)
  show ?case
  proof (cases k)
    case 0
    with Suc.prems(3) show ?thesis by (simp add: nonRetryable_def)
  next
    case (Suc j)
    from Suc.prems(2) Suc obtain msg where first: "operation a = Inl (Error msg)"
      by (metis add.right_neutral zero_less_Suc)
    have "\<forall>i<j. \<exists>msg. operation (Suc a + i) = Inl (Error msg)"
      using Suc.prems(2) Suc by (metis add_Suc_shift Suc_less_eq)
    moreover have "operation (Suc a + j) = Inl (WorkflowValidationSkipError m)"
      using Suc.prems(3) Suc by simp
    moreover have "j \<le> budget" using Suc.prems(1) Suc by simp
    ultimately have "retryFrom operation budget (Suc a) = Inl (WorkflowValidationSkipError m)"
      by (rule Suc.IH[rotated -1, rotated -1]) 
    with first show ?thesis by (simp add: nonRetryable_def)
  qed
qed

lemma retryWithBackoff_skip:
  assumes "k < n"
      and "\<forall>i<k. \<exists>msg. operation i = Inl (Error msg)"
      and "operation k = Inl (WorkflowValidationSkipError m)"
  shows "retryWithBackoff n operation = Inl (WorkflowValidationSkipError m)"
  unfolding retryWithBackoff_def
  using assms by (intro retryFrom_skip[where k = k]) auto

lemma exchange_skip:
  assumes "\<not> response_ok response" "response_json response = Inr body"
      and "error_code body = Some ''workflow_not_found_on_default_branch''"
  shows "exchangeForAppToken (Inr response) =
           Inl (WorkflowValidationSkipError
                  (case top_message body of
                     Some m \<Rightarrow> m
                   | None \<Rightarrow> (case error_message body of
                                Some m \<Rightarrow> m
                              | None \<Rightarrow> ''Workflow validation failed'')))"
  using assms by (simp add: exchangeForAppToken_def bindE_def Let_def)

lemma run_skip:
  assumes "parseGitHubContext_result w = Inr ctx" "detectMode_result w = Inr modeName"
      and "setupGitHubToken (process_env w) (auth w) = Inl (WorkflowValidationSkipError m)"
  shows "run w = (Return, init_state\<lparr>run_context := Some ctx,
                    effects := [SetOutput ''skipped_due_to_workflow_validation_mismatch'' (Some ''true''),
                                SetOutput ''branch_name'' None,
                                SetOutput ''github_token'' None]\<rparr>)"
proof -
  have p: "preparePhase w init_state =
      (Return, init_state\<lparr>run_context := Some ctx,
          effects := [SetOutput ''skipped_due_to_workflow_validation_mismatch'' (Some ''true'')]\<rparr>)"
    using assms
    by (simp add: preparePhase_unfold bind_def await_def assign_def authenticate_cases init_state_def)
  then have t: "tryBlock w init_state =
      (Return, init_state\<lparr>run_context := Some ctx,
          effects := [SetOutput ''skipped_due_to_workflow_validation_mismatch'' (Some ''true'')]\<rparr>)"
    by (simp add: tryBlock_cases)
  have "commentEffects w (init_state\<lparr>run_context := Some ctx,
          effects := [SetOutput ''skipped_due_to_workflow_validation_mismatch'' (Some ''true'')]\<rparr>) = []"
       "reportEffects w (init_state\<lparr>run_context := Some ctx,
          effects := [SetOutput ''skipped_due_to_workflow_validation_mismatch'' (Some ''true'')]\<rparr>) = []"
    by (simp_all add: commentEffects_def updateParams_def reportEffects_def init_state_def)
  with run_no_throw[OF t] show ?thesis by (simp add: init_state_def)
qed

text \<open>
  Claim C1. A non-success exchange response whose body carries the error code
  \<open>workflow_not_found_on_default_branch\<close> makes \<open>exchangeForAppToken\<close> throw the skip
  signal. When \<open>setupGitHubToken\<close> throws the skip signal, the run sets the output
  \<open>skipped_due_to_workflow_validation_mismatch\<close> to \<open>true\<close>, returns, and records no
  failure. And the skip signal leaves \<open>setupGitHubToken\<close> whenever the response with that
  code comes at an attempt within the bound, after any number of attempts that failed with
  an ordinary error.
\<close>

theorem workflow_validation_skip:
  "(\<not> response_ok response \<and> response_json response = Inr body
      \<and> error_code body = Some ''workflow_not_found_on_default_branch''
     \<longrightarrow> (\<exists>m. exchangeForAppToken (Inr response) = Inl (WorkflowValidationSkipError m)))
   \<and> (parseGitHubContext_result w = Inr ctx \<and> detectMode_result w = Inr modeName
      \<and> setupGitHubToken (process_env w) (auth w) = Inl (WorkflowValidationSkipError m)
     \<longrightarrow> fst (run w) = Return
         \<and> effects (snd (run w)) =
             [SetOutput ''skipped_due_to_workflow_validation_mismatch'' (Some ''true''),
              SetOutput ''branch_name'' None,
              SetOutput ''github_token'' None]
         \<and> failures (effects (snd (run w))) = []
         \<and> prepareSuccess (snd (run w)) \<and> prepareError (snd (run w)) = None)
   \<and> (\<not> truthy (process_env w ''OVERRIDE_GITHUB_TOKEN'')
      \<and> retryWithBackoff (maxAttempts (auth w))
            (\<lambda>attempt. getOidcToken (getIDToken_result (auth w) attempt)) = Inr oidcToken
      \<and> k < maxAttempts (auth w)
      \<and> (\<forall>i<k. \<exists>msg. exchangeForAppToken
                         (fetch_result (auth w) i oidcToken
                            (parseAdditionalPermissions (process_env w ''ADDITIONAL_PERMISSIONS'')))
                       = Inl (Error msg))
      \<and> fetch_result (auth w) k oidcToken
            (parseAdditionalPermissions (process_env w ''ADDITIONAL_PERMISSIONS'')) = Inr response
      \<and> \<not> response_ok response \<and> response_json response = Inr body
      \<and> error_code body = Some ''workflow_not_found_on_default_branch''
     \<longrightarrow> (\<exists>m. setupGitHubToken (process_env w) (auth w) = Inl (WorkflowValidationSkipError m)))"
proof -
  have a: "\<exists>m. exchangeForAppToken (Inr response) = Inl (WorkflowValidationSkipError m)"
    if "\<not> response_ok response" "response_json response = Inr body"
       "error_code body = Some ''workflow_not_found_on_default_branch''"
    using exchange_skip[OF that] by blast
  have b: "fst (run w) = Return
         \<and> effects (snd (run w)) =
             [SetOutput ''skipped_due_to_workflow_validation_mismatch'' (Some ''true''),
              SetOutput ''branch_name'' None,
              SetOutput ''github_token'' None]
         \<and> failures (effects (snd (run w))) = []
         \<and> prepareSuccess (snd (run w)) \<and> prepareError (snd (run w)) = None"
    if "parseGitHubContext_result w = Inr ctx" "detectMode_result w = Inr modeName"
       "setupGitHubToken (process_env w) (auth w) = Inl (WorkflowValidationSkipError m)"
    unfolding run_skip[OF that] by (simp add: failures_simps init_state_def)
  have c: "\<exists>m. setupGitHubToken (process_env w) (auth w) = Inl (WorkflowValidationSkipError m)"
    if o: "\<not> truthy (process_env w ''OVERRIDE_GITHUB_TOKEN'')"
      and t: "retryWithBackoff (maxAttempts (auth w))
            (\<lambda>attempt. getOidcToken (getIDToken_result (auth w) attempt)) = Inr oidcToken"
      and k: "k < maxAttempts (auth w)"
      and e: "\<forall>i<k. \<exists>msg. exchangeForAppToken
                         (fetch_result (auth w) i oidcToken
                            (parseAdditionalPermissions (process_env w ''ADDITIONAL_PERMISSIONS'')))
                       = Inl (Error msg)"
      and f: "fetch_result (auth w) k oidcToken
            (parseAdditionalPermissions (process_env w ''ADDITIONAL_PERMISSIONS'')) = Inr response"
      and r: "\<not> response_ok response" "response_json response = Inr body"
             "error_code body = Some ''workflow_not_found_on_default_branch''"
  proof -
    from exchange_skip[OF r] f obtain m' where
      "exchangeForAppToken (fetch_result (auth w) k oidcToken
            (parseAdditionalPermissions (process_env w ''ADDITIONAL_PERMISSIONS'')))
         = Inl (WorkflowValidationSkipError m')"
      by simp
    from retryWithBackoff_skip[where operation = "\<lambda>attempt. exchangeForAppToken
            (fetch_result (auth w) attempt oidcToken
              (parseAdditionalPermissions (process_env w ''ADDITIONAL_PERMISSIONS'')))", OF k e this]
    show ?thesis using o t by (simp add: setupGitHubToken_def bindE_def Let_def)
  qed
  from a b c show ?thesis by blast
qed

theorem workflow_validation_skip_witness:
  "exchangeForAppToken (Inr skip_response)
     = Inl (WorkflowValidationSkipError ''Workflow not found on the default branch'')
   \<and> fst (run skip_world) = Return
   \<and> effects (snd (run skip_world)) =
        [SetOutput ''skipped_due_to_workflow_validation_mismatch'' (Some ''true''),
         SetOutput ''branch_name'' None,
         SetOutput ''github_token'' None]
   \<and> failures (effects (snd (run skip_world))) = []"
proof -
  let ?body = "\<lparr>error_message = Some ''Workflow not found on the default branch'',
                 error_code = Some ''workflow_not_found_on_default_branch'',
                 top_message = None, json_token = None, json_app_token = None\<rparr>"
  note t = workflow_validation_skip
             [of skip_response ?body skip_world issue_comment_context "''tag''"
                 "''Workflow not found on the default branch''" "''oidc''" 2]
  have r: "\<not> response_ok skip_response \<and> response_json skip_response = Inr ?body
           \<and> error_code ?body = Some ''workflow_not_found_on_default_branch''"
    by (simp add: skip_response_def)
  have p: "parseAdditionalPermissions (process_env skip_world ''ADDITIONAL_PERMISSIONS'') = None"
    by code_simp
  have o: "\<not> truthy (process_env skip_world ''OVERRIDE_GITHUB_TOKEN'')" by code_simp
  have i: "retryWithBackoff (maxAttempts (auth skip_world))
            (\<lambda>attempt. getOidcToken (getIDToken_result (auth skip_world) attempt)) = Inr ''oidc''"
    by code_simp
  have k: "2 < maxAttempts (auth skip_world)" by code_simp
  have e0: "exchangeForAppToken (fetch_result (auth skip_world) 0 ''oidc'' None)
              = Inl (Error ''Service unavailable'')"
    by code_simp
  have e1: "exchangeForAppToken (fetch_result (auth skip_world) 1 ''oidc'' None)
              = Inl (Error ''Service unavailable'')"
    by code_simp
  have e: "\<forall>i<2. \<exists>msg. exchangeForAppToken
                         (fetch_result (auth skip_world) i ''oidc''
                            (parseAdditionalPermissions (process_env skip_world ''ADDITIONAL_PERMISSIONS'')))
                       = Inl (Error msg)"
    unfolding p using e0 e1 by (auto simp: less_2_cases_iff)
  have f: "fetch_result (auth skip_world) 2 ''oidc''
            (parseAdditionalPermissions (process_env skip_world ''ADDITIONAL_PERMISSIONS'')) = Inr skip_response"
    unfolding p by code_simp
  from t r have "\<exists>m. exchangeForAppToken (Inr skip_response) = Inl (WorkflowValidationSkipError m)"
    by blast
  moreover have "exchangeForAppToken (Inr skip_response)
     = Inl (WorkflowValidationSkipError ''Workflow not found on the default branch'')"
    by code_simp
  moreover from t o i k e f r
  have "\<exists>m. setupGitHubToken (process_env skip_world) (auth skip_world) = Inl (WorkflowValidationSkipError m)"
    by blast
  moreover have s: "setupGitHubToken (process_env skip_world) (auth skip_world)
             = Inl (WorkflowValidationSkipError ''Workflow not found on the default branch'')"
    by code_simp
  moreover have c: "parseGitHubContext_result skip_world = Inr issue_comment_context
           \<and> detectMode_result skip_world = Inr ''tag''"
    by code_simp
  moreover from t c s have "fst (run skip_world) = Return
         \<and> effects (snd (run skip_world)) =
             [SetOutput ''skipped_due_to_workflow_validation_mismatch'' (Some ''true''),
              SetOutput ''branch_name'' None,
              SetOutput ''github_token'' None]
         \<and> failures (effects (snd (run skip_world))) = []"
    by blast
  ultimately show ?thesis by blast
qed






lemma commentEffects_logged:
  assumes "updateParams s = Some p" "updateCommentLink_result (cleanup w) = Inl err"
  shows "ConsoleError ''Error updating comment with job link:'' err \<in> set (commentEffects w s)"
  using assms by (simp add: commentEffects_def)

lemma run_cleanup_ssh_signing_total: "run_cleanup_ssh_signing cw = Inr ()"
  by (simp add: run_cleanup_ssh_signing_def cleanupSshSigning_def catchE_def split: sum.splits)

text \<open>
  On a runner whose output file is in place no run ends with an exception: the cleanup
  block runs to its end and sets \<open>branch_name\<close> exactly once; a failed update of the
  tracking comment and a report that cannot be written are logged; the completion of the
  run, its recorded failures, its outputs and the failure attribution are the same for
  every behaviour of the cleanup collaborators. The post step that removes the signing
  key does not throw either.
\<close>

lemma cleanup_swallows_collaborator_errors:
  "(\<forall>e. fst (run w) \<noteq> Throw e)
   \<and> length (outputsOf ''branch_name'' (effects (snd (run w)))) = 1
   \<and> (\<forall>p err. updateParams (snd (run w)) = Some p
                \<and> updateCommentLink_result (cleanup w) = Inl err
         \<longrightarrow> ConsoleError ''Error updating comment with job link:'' err
               \<in> set (effects (snd (run w))))
   \<and> set (reportEffects w (snd (run w))) \<subseteq> set (effects (snd (run w)))
   \<and> (\<forall>cw. fst (run (w\<lparr>cleanup := cw\<rparr>)) = fst (run w)
           \<and> failures (effects (snd (run (w\<lparr>cleanup := cw\<rparr>)))) = failures (effects (snd (run w)))
           \<and> (\<forall>n. outputsOf n (effects (snd (run (w\<lparr>cleanup := cw\<rparr>))))
                    = outputsOf n (effects (snd (run w))))
           \<and> prepareSuccess (snd (run (w\<lparr>cleanup := cw\<rparr>))) = prepareSuccess (snd (run w))
           \<and> prepareError (snd (run (w\<lparr>cleanup := cw\<rparr>))) = prepareError (snd (run w)))
   \<and> run_cleanup_ssh_signing (cleanup w) = Inr ()"
proof -
  from run_shape[of w] obtain c s where
    nt: "\<forall>e. c \<noteq> Throw e"
    and r: "run w = (c, s\<lparr>effects := effects s @ commentEffects w s @ reportEffects w s
                              @ [SetOutput ''branch_name'' (claudeBranch s),
                                 SetOutput ''github_token'' (githubToken s)]\<rparr>)"
    and b: "outputsOf ''branch_name'' (effects s) = []"
    and o: "\<forall>cw. run (w\<lparr>cleanup := cw\<rparr>) =
                 (c, s\<lparr>effects := effects s @ commentEffects (w\<lparr>cleanup := cw\<rparr>) s
                              @ reportEffects (w\<lparr>cleanup := cw\<rparr>) s
                              @ [SetOutput ''branch_name'' (claudeBranch s),
                                 SetOutput ''github_token'' (githubToken s)]\<rparr>)"
    by blast
  have 1: "\<forall>e. fst (run w) \<noteq> Throw e" using nt r by simp
  have 3: "length (outputsOf ''branch_name'' (effects (snd (run w)))) = 1"
    using b by (simp add: r outputsOf_simps commentEffects_quiet reportEffects_quiet)
  have 4: "ConsoleError ''Error updating comment with job link:'' err \<in> set (effects (snd (run w)))"
    if "updateParams (snd (run w)) = Some p" "updateCommentLink_result (cleanup w) = Inl err"
    for p err
  proof -
    from that(1) have "updateParams s = Some p" by (simp add: r updateParams_effects)
    from commentEffects_logged[OF this that(2)] show ?thesis by (simp add: r)
  qed
  have 2: "set (reportEffects w (snd (run w))) \<subseteq> set (effects (snd (run w)))"
    by (auto simp add: r reportEffects_effects)
  have 5: "fst (run (w\<lparr>cleanup := cw\<rparr>)) = fst (run w)
           \<and> failures (effects (snd (run (w\<lparr>cleanup := cw\<rparr>)))) = failures (effects (snd (run w)))
           \<and> (\<forall>n. outputsOf n (effects (snd (run (w\<lparr>cleanup := cw\<rparr>))))
                    = outputsOf n (effects (snd (run w))))
           \<and> prepareSuccess (snd (run (w\<lparr>cleanup := cw\<rparr>))) = prepareSuccess (snd (run w))
           \<and> prepareError (snd (run (w\<lparr>cleanup := cw\<rparr>))) = prepareError (snd (run w))" for cw
    using o[rule_format, of cw]
    by (simp add: r failures_simps outputsOf_simps commentEffects_quiet reportEffects_quiet)
  from 1 2 3 4 5 run_cleanup_ssh_signing_total show ?thesis by blast
qed

text \<open>Whatever the run did, an exception of \<open>core.setOutput\<close> for \<open>branch_name\<close> in the
  cleanup block leaves the run.\<close>

lemma finally_output_error_escapes:
  assumes "sink ''branch_name'' = Inl e"
  shows "fst (run_with sink w) = Throw e"
  using assms
  by (simp add: run_with_def tryFinally_def finallyBlock_sink split: prod.splits)

text \<open>
  Claim C4 says that no error raised in the cleanup block leaves the run. On a runner
  whose output file is missing the workload fails with \<open>boom\<close>, the handler records that
  failure, and then \<open>core.setOutput\<close> for \<open>branch_name\<close> throws inside the cleanup
  block, outside any \<open>try\<close>: the run ends with that exception, and neither \<open>branch_name\<close>
  nor \<open>github_token\<close> is set. With the output file in place the same run ends without an
  exception.
\<close>

theorem cleanup_output_failure_escapes:
  "fst (run_with unwritableSink execute_failure_world)
     = Throw (Error ''Missing file at path: /home/runner/_temp/set_output'')
   \<and> failures (effects (snd (run_with unwritableSink execute_failure_world)))
       = [''Action failed with error: boom'']
   \<and> outputsOf ''branch_name'' (effects (snd (run_with unwritableSink execute_failure_world))) = []
   \<and> outputsOf ''github_token'' (effects (snd (run_with unwritableSink execute_failure_world))) = []
   \<and> fst (run_with acceptingSink execute_failure_world) = Normal ()"
  by code_simp
















end
